theory Spec2Isabelle
  imports Main
begin

section \<open>JavaScript values used by spHelper\<close>

text \<open>
  The values that travel through query descriptors and column descriptors: an absent
  property (\<^verbatim>\<open>undefined\<close>), an integer number, a string, or an array of such values.
  Strings are sequences of ASCII characters; numbers are integers (the case in which
  JavaScript's number arithmetic and printing are exact).
\<close>

datatype jsval = Undefined | Num int | Str string | Arr "jsval list"

definition quoted :: "string \<Rightarrow> string" where
  "quoted s = CHR 0x27 # s @ [CHR 0x27]"

definition digitChar :: "nat \<Rightarrow> char" where
  "digitChar d = ''0123456789'' ! d"

fun showNat :: "nat \<Rightarrow> string" where
  "showNat n = (if n < 10 then [digitChar n] else showNat (n div 10) @ [digitChar (n mod 10)])"

definition showInt :: "int \<Rightarrow> string" where
  "showInt i = (if i < 0 then CHR ''-'' # showNat (nat (- i)) else showNat (nat i))"

fun joinWith :: "string \<Rightarrow> string list \<Rightarrow> string" where
  "joinWith sep [] = []"
| "joinWith sep [x] = x"
| "joinWith sep (x # y # ys) = x @ sep @ joinWith sep (y # ys)"

text \<open>
  String conversion as performed by template literals and by string concatenation:
  an array prints its elements joined by commas, an absent element printing as nothing.
\<close>

fun toString :: "jsval \<Rightarrow> string" where
  "toString Undefined = ''undefined''"
| "toString (Num n) = showInt n"
| "toString (Str s) = s"
| "toString (Arr xs) =
     joinWith '','' (map (\<lambda>x. case x of Undefined \<Rightarrow> [] | _ \<Rightarrow> toString x) xs)"

definition lowerChar :: "char \<Rightarrow> char" where
  "lowerChar c =
     (case map_of (zip ''ABCDEFGHIJKLMNOPQRSTUVWXYZ'' ''abcdefghijklmnopqrstuvwxyz'') c of
        Some l \<Rightarrow> l
      | None \<Rightarrow> c)"

definition toLowerCase :: "string \<Rightarrow> string" where
  "toLowerCase s = map lowerChar s"

subsection \<open>The global isNaN\<close>

text \<open>
  \<^verbatim>\<open>isNaN(v)\<close> converts its argument to a number and tests the result. A string
  converts to a number when, with surrounding white space removed, it is empty, a
  decimal literal (optional sign, digits with an optional fraction and exponent, or
  Infinity), or an unsigned hexadecimal, octal or binary literal.
\<close>

definition isSpace :: "char \<Rightarrow> bool" where
  "isSpace c = ((of_char c :: nat) \<in> {9, 10, 11, 12, 13, 32})"

definition isDigit :: "char \<Rightarrow> bool" where
  "isDigit c = (48 \<le> (of_char c :: nat) \<and> (of_char c :: nat) \<le> 57)"

definition isHexDigit :: "char \<Rightarrow> bool" where
  "isHexDigit c = (isDigit c \<or> c \<in> set ''abcdefABCDEF'')"

definition trim :: "string \<Rightarrow> string" where
  "trim s = rev (dropWhile isSpace (rev (dropWhile isSpace s)))"

definition dropSign :: "string \<Rightarrow> string" where
  "dropSign s = (case s of [] \<Rightarrow> [] | c # cs \<Rightarrow> if c = CHR ''+'' \<or> c = CHR ''-'' then cs else s)"

definition exponentPart :: "string \<Rightarrow> bool" where
  "exponentPart s =
     (case s of
        [] \<Rightarrow> True
      | c # cs \<Rightarrow> (c = CHR ''e'' \<or> c = CHR ''E'') \<and> dropSign cs \<noteq> [] \<and> list_all isDigit (dropSign cs))"

definition decimalLiteral :: "string \<Rightarrow> bool" where
  "decimalLiteral s =
     (let ip = takeWhile isDigit s; r1 = dropWhile isDigit s
      in case r1 of
           c # cs \<Rightarrow>
             if c = CHR ''.''
             then (ip \<noteq> [] \<or> takeWhile isDigit cs \<noteq> []) \<and> exponentPart (dropWhile isDigit cs)
             else ip \<noteq> [] \<and> exponentPart r1
         | [] \<Rightarrow> ip \<noteq> [])"

definition radixLiteral :: "string \<Rightarrow> bool" where
  "radixLiteral s =
     (case s of
        z # x # ds \<Rightarrow>
          z = CHR ''0'' \<and> ds \<noteq> [] \<and>
          (if x = CHR ''x'' \<or> x = CHR ''X'' then list_all isHexDigit ds
           else if x = CHR ''o'' \<or> x = CHR ''O'' then list_all (\<lambda>d. d \<in> set ''01234567'') ds
           else if x = CHR ''b'' \<or> x = CHR ''B'' then list_all (\<lambda>d. d \<in> set ''01'') ds
           else False)
      | _ \<Rightarrow> False)"

definition numericString :: "string \<Rightarrow> bool" where
  "numericString s =
     (let t = trim s
      in t = [] \<or> radixLiteral t \<or> dropSign t = ''Infinity'' \<or> decimalLiteral (dropSign t))"

definition isNaN :: "jsval \<Rightarrow> bool" where
  "isNaN v = (case v of Undefined \<Rightarrow> True | Num n \<Rightarrow> False | _ \<Rightarrow> \<not> numericString (toString v))"

definition isArray :: "jsval \<Rightarrow> bool" where
  "isArray v = (case v of Arr xs \<Rightarrow> True | _ \<Rightarrow> False)"

definition elements :: "jsval \<Rightarrow> jsval list" where
  "elements v = (case v of Arr xs \<Rightarrow> xs | _ \<Rightarrow> [])"

definition firstElement :: "jsval \<Rightarrow> jsval" where
  "firstElement v = (case elements v of [] \<Rightarrow> Undefined | x # xs \<Rightarrow> x)"

text \<open>
  Reading a property of \<^verbatim>\<open>undefined\<close> raises a TypeError; its text is what string
  concatenation makes of the error object.
\<close>

definition typeError :: "string \<Rightarrow> string" where
  "typeError prop =
     ''TypeError: Cannot read properties of undefined (reading '' @ quoted prop @ '')''"

section \<open>Query descriptors\<close>

text \<open>
  The object handed to \<^verbatim>\<open>getListData\<close> and \<^verbatim>\<open>loadListData\<close>. A property that is
  absent is \<^term>\<open>None\<close> (or \<^term>\<open>Undefined\<close> for the comparison value, which the code
  inspects as a value). An entry of the \<^verbatim>\<open>values\<close> array has the properties of a
  where object without \<^verbatim>\<open>values\<close> of its own.
\<close>

record whereItem =
  i_column :: string
  i_operation :: string
  i_value :: jsval
  i_type :: "string option"

record whereClause =
  w_column :: string
  w_operation :: string
  w_value :: jsval
  w_type :: "string option"
  w_values :: "whereItem list option"

record joinDetails =
  j_direction :: string
  j_list :: string
  j_joinColumn :: string
  j_getColumns :: "string list"

record queryDetails =
  listName :: "string option"
  listGuid :: "string option"
  listColumns :: "string list option"
  query :: "string option"
  whereObj :: "whereClause option"
  joinObj :: "joinDetails option"
  pagePosition :: "int option"

section \<open>The CAML markup appended to customQuery\<close>

text \<open>
  Every \<^verbatim>\<open>customQuery += ...\<close> of \<^verbatim>\<open>loadListData\<close> appends markup elements; the
  model appends the same elements as a list of pieces, and \<open>render\<close> gives the characters
  of each, so that \<open>renderAll\<close> of the list is the string the code holds. The three
  spellings of a field reference that occur in the code are kept apart.
\<close>

datatype marker = Plain | PlainTight | LookupId

datatype piece =
    Lit string
  | Open string
  | Close string
  | FieldRef string marker
  | ValueEl string string

fun render :: "piece \<Rightarrow> string" where
  "render (Lit s) = s"
| "render (Open t) = ''<'' @ t @ ''>''"
| "render (Close t) = ''</'' @ t @ ''>''"
| "render (FieldRef c Plain) = ''<FieldRef Name='' @ quoted c @ '' />''"
| "render (FieldRef c PlainTight) = ''<FieldRef Name='' @ quoted c @ ''/>''"
| "render (FieldRef c LookupId) = ''<FieldRef Name='' @ quoted c @ '' LookupId='TRUE'/>''"
| "render (ValueEl t v) = ''<Value Type='' @ quoted t @ ''>'' @ v @ ''</Value>''"

definition renderAll :: "piece list \<Rightarrow> string" where
  "renderAll ps = concat (map render ps)"

definition typeText :: "string option \<Rightarrow> string" where
  "typeText t = (case t of None \<Rightarrow> ''undefined'' | Some s \<Rightarrow> s)"

subsection \<open>The where clause\<close>

text \<open>The body of the \<^verbatim>\<open>forEach\<close> over \<^verbatim>\<open>where.values\<close> (one comparison per entry).\<close>

definition itemPieces :: "whereItem \<Rightarrow> string + piece list" where
  "itemPieces v =
     (case i_type v of
        None \<Rightarrow> Inl (typeError ''toLowerCase'')
      | Some t \<Rightarrow>
          Inr ([Open (i_operation v)] @
               (if toLowerCase t = ''lookup'' \<and> \<not> isNaN (i_value v)
                then [FieldRef (i_column v) LookupId, Lit '' '', ValueEl t (toString (i_value v))]
                else [FieldRef (i_column v) PlainTight, Lit '' '', ValueEl t (toString (i_value v))]) @
               [Close (i_operation v)]))"

fun itemsPieces :: "whereItem list \<Rightarrow> string + piece list" where
  "itemsPieces [] = Inr []"
| "itemsPieces (v # vs) =
     (case itemPieces v of
        Inl e \<Rightarrow> Inl e
      | Inr ps \<Rightarrow> (case itemsPieces vs of Inl e \<Rightarrow> Inl e | Inr qs \<Rightarrow> Inr (ps @ qs)))"

text \<open>The inner \<^verbatim>\<open>forEach\<close> over the comparison values: one value element each.\<close>

definition valueElements :: "string option \<Rightarrow> jsval list \<Rightarrow> piece list" where
  "valueElements t vs = map (\<lambda>v. ValueEl (typeText t) (toString v)) vs"

text \<open>
  The loop \<^verbatim>\<open>for (let i = 0; i < batches; i++)\<close> of the In workaround. Each pass
  opens a membership clause, runs the \<^verbatim>\<open>forEach\<close> over \<^verbatim>\<open>where.value\<close>, and closes
  the clause.
\<close>

function batchLoop :: "nat \<Rightarrow> nat \<Rightarrow> whereClause \<Rightarrow> piece list" where
  "batchLoop i batches w =
     (if i < batches
      then [Open ''In'', Lit '' '', FieldRef (w_column w) Plain, Lit '' '', Open ''Values''] @
           valueElements (w_type w) (elements (w_value w)) @
           [Close ''Values'', Close ''In''] @
           batchLoop (i + 1) batches w
      else [])"
  by pat_completeness auto
termination
  by (relation "measure (\<lambda>(i, batches, w). batches - i)") auto

definition ceilDiv60 :: "nat \<Rightarrow> nat" where
  "ceilDiv60 n = (n + 59) div 60"

text \<open>
  \<^verbatim>\<open>where.value\<close> is overwritten with the empty string when it is absent; the
  descriptor keeps that change.
\<close>

definition defaultValue :: "whereClause \<Rightarrow> whereClause" where
  "defaultValue w = (if w_value w = Undefined then w\<lparr>w_value := Str []\<rparr> else w)"

definition camlWhereInFix :: "whereClause \<Rightarrow> bool" where
  "camlWhereInFix w =
     (toLowerCase (w_operation w) = ''in'' \<and> isArray (w_value w) \<and>
      length (elements (w_value w)) > 60)"

definition leafPieces :: "whereClause \<Rightarrow> string + piece list" where
  "leafPieces w =
     (if camlWhereInFix w
      then Inr ([Open ''Or''] @
                batchLoop 0 (ceilDiv60 (length (elements (w_value w)))) w @
                [Close ''Or''])
      else if isArray (w_value w)
      then (case w_type w of
              None \<Rightarrow> Inl (typeError ''toLowerCase'')
            | Some t \<Rightarrow>
                Inr ([Open (w_operation w)] @
                     (if toLowerCase t = ''lookup'' \<and> \<not> isNaN (firstElement (w_value w))
                      then [Lit '' '', FieldRef (w_column w) LookupId]
                      else [Lit '' '', FieldRef (w_column w) Plain]) @
                     [Open ''Values''] @
                     valueElements (w_type w) (elements (w_value w)) @
                     [Close ''Values''] @
                     [Close (w_operation w)]))
      else Inr ([Open (w_operation w)] @
                (if w_type w \<noteq> None \<and> toLowerCase (the (w_type w)) = ''lookup'' \<and>
                    \<not> isNaN (w_value w)
                 then [Lit '' '', FieldRef (w_column w) LookupId]
                 else [Lit '' '', FieldRef (w_column w) Plain]) @
                (if w_type w \<noteq> None \<and> w_value w \<noteq> Undefined
                 then [ValueEl (typeText (w_type w)) (toString (w_value w))]
                 else []) @
                [Close (w_operation w)]))"

text \<open>
  The whole where section, from \<^verbatim>\<open><Query> <Where>\<close> to \<^verbatim>\<open></Where></Query>\<close>,
  together with the where object as the code leaves it.
\<close>

definition wherePieces :: "whereClause \<Rightarrow> (string + piece list) \<times> whereClause" where
  "wherePieces w0 =
     (let w = defaultValue w0
      in (case (case w_values w of
                  Some vs \<Rightarrow>
                    (case itemsPieces vs of
                       Inl e \<Rightarrow> Inl e
                     | Inr ps \<Rightarrow> Inr ([Open (w_operation w)] @ ps @ [Close (w_operation w)]))
                | None \<Rightarrow> leafPieces w) of
            Inl e \<Rightarrow> Inl e
          | Inr ps \<Rightarrow>
              Inr ([Open ''Query'', Lit '' '', Open ''Where''] @ ps @
                   [Close ''Where'', Close ''Query'']),
          w))"

subsection \<open>The join section and the whole view\<close>

definition dquoted :: "string \<Rightarrow> string" where
  "dquoted s = CHR 0x22 # s @ [CHR 0x22]"

definition lineIndent :: "nat \<Rightarrow> string" where
  "lineIndent n = CHR 0x0A # replicate n (CHR '' '')"

definition joinPieces :: "joinDetails \<Rightarrow> piece list" where
  "joinPieces j =
     [Lit (lineIndent 20 @ ''<Joins>'' @
           lineIndent 24 @ ''<Join Type='' @ dquoted (j_direction j) @
             '' ListAlias='' @ dquoted (j_list j) @ ''>'' @
           lineIndent 28 @ ''<Eq>'' @
           lineIndent 32 @ ''<FieldRef Name='' @ dquoted (j_joinColumn j) @
             '' RefType='' @ dquoted ''Id'' @ '' />'' @
           lineIndent 32 @ ''<FieldRef Name='' @ dquoted ''ID'' @
             '' List='' @ dquoted (j_list j) @ '' />'' @
           lineIndent 28 @ ''</Eq>'' @
           lineIndent 24 @ ''</Join>'' @
           lineIndent 20 @ ''</Joins>''),
      Open ''ProjectedFields''] @
     map (\<lambda>c. Lit (''<Field ShowField='' @ dquoted c @ '' Type='' @ dquoted ''Lookup'' @
                    '' Name='' @ dquoted c @ '' List='' @ dquoted (j_list j) @ '' />''))
         (j_getColumns j) @
     [Close ''ProjectedFields'']"

text \<open>
  The custom query of \<^verbatim>\<open>loadListData\<close> (the branch taken when \<^verbatim>\<open>query\<close> is absent),
  with the descriptor as the code leaves it. \<open>cols\<close> is \<^verbatim>\<open>queryDetails.listColumns\<close>.
\<close>

definition customQuery :: "queryDetails \<Rightarrow> string list \<Rightarrow> (string + piece list) \<times> queryDetails" where
  "customQuery qd cols =
     (let head = [Lit ''<View Scope='RecursiveAll'>'', Open ''ViewFields''] @
                 map (\<lambda>c. FieldRef c Plain) cols @ [Close ''ViewFields''];
          tail = (case joinObj qd of None \<Rightarrow> [] | Some j \<Rightarrow> joinPieces j) @ [Close ''View'']
      in case whereObj qd of
           None \<Rightarrow> (Inr (head @ tail), qd)
         | Some w0 \<Rightarrow>
             (case wherePieces w0 of
                (Inl e, w) \<Rightarrow> (Inl e, qd\<lparr>whereObj := Some w\<rparr>)
              | (Inr ps, w) \<Rightarrow> (Inr (head @ ps @ tail), qd\<lparr>whereObj := Some w\<rparr>)))"

section \<open>loadListData\<close>

datatype listRef = ByTitle string | ById string

text \<open>
  What one call of \<^verbatim>\<open>loadListData\<close> hands to the store: the list, the view XML, the
  paging information built from \<^verbatim>\<open>pagePosition\<close> (kept also as the number itself), and
  the include expression.
\<close>

record request =
  r_list :: listRef
  r_viewXml :: string
  r_position :: int
  r_pagingInfo :: string
  r_include :: string

definition invalidQueryDetails :: string where
  "invalidQueryDetails =
     ''spHelper Error: Invalid query details. Minimum query details must include list title, columns and page position.''"

definition unableToRead :: "string \<Rightarrow> string" where
  "unableToRead e = ''spHelper Error: Unable to read list data. Validate query details ... '' @ e"

text \<open>
  The synchronous part of \<^verbatim>\<open>loadListData\<close>, up to \<^verbatim>\<open>executeQueryAsync\<close>: the check
  of the descriptor, then, inside the \<^verbatim>\<open>try\<close>, the query and the paging position.
  \<^term>\<open>Inl\<close> is the string thrown. The calls on the store's client objects made here
  only record the request; they raise nothing.
\<close>

definition loadListData_issue :: "queryDetails \<Rightarrow> (string + request) \<times> queryDetails" where
  "loadListData_issue qd =
     (if (listName qd = None \<and> listGuid qd = None) \<or> listColumns qd = None \<or>
         pagePosition qd = None
      then (Inl invalidQueryDetails, qd)
      else
        let cols = the (listColumns qd);
            spList = (case listName qd of Some n \<Rightarrow> ByTitle n | None \<Rightarrow> ById (the (listGuid qd)));
            (xml, qd') = (case query qd of
                            Some q \<Rightarrow> (Inr q, qd)
                          | None \<Rightarrow>
                              (case customQuery qd cols of
                                 (Inl e, qd') \<Rightarrow> (Inl e, qd')
                               | (Inr ps, qd') \<Rightarrow> (Inr (renderAll ps), qd')))
        in case xml of
             Inl e \<Rightarrow> (Inl (unableToRead e), qd')
           | Inr x \<Rightarrow>
               (Inr \<lparr>r_list = spList, r_viewXml = x,
                     r_position = the (pagePosition qd'),
                     r_pagingInfo = ''Paged=TRUE&p_ID='' @ showInt (the (pagePosition qd')),
                     r_include = ''Include('' @ joinWith '','' cols @ '')''\<rparr>,
                qd'))"

subsection \<open>The resolve callback: rows from list items\<close>

text \<open>
  A returned list item is what its \<^verbatim>\<open>get_item\<close> answers for a column name: the field
  value, or the error it raises for a column the item does not hold.
\<close>

type_synonym 'v listItem = "string \<Rightarrow> string + 'v"

type_synonym 'v row = "(string \<times> 'v) list"

fun assign :: "string \<Rightarrow> 'v \<Rightarrow> 'v row \<Rightarrow> 'v row" where
  "assign k v [] = [(k, v)]"
| "assign k v ((k', v') # r) = (if k = k' then (k, v) # r else (k', v') # assign k v r)"

definition columnMissing :: "queryDetails \<Rightarrow> string \<Rightarrow> string \<Rightarrow> string" where
  "columnMissing qd columnName error =
     ''spHelper Error: The column '' @ quoted columnName @ '' requested from '' @
     quoted (case listName qd of Some n \<Rightarrow> n | None \<Rightarrow> typeText (listGuid qd)) @
     '' does not exist! Error: '' @ error"

fun itemRow :: "queryDetails \<Rightarrow> 'v listItem \<Rightarrow> string list \<Rightarrow> 'v row \<Rightarrow> string + 'v row" where
  "itemRow qd item [] row = Inr row"
| "itemRow qd item (columnName # cs) row =
     (case item columnName of
        Inl error \<Rightarrow> Inl (columnMissing qd columnName error)
      | Inr v \<Rightarrow> itemRow qd item cs (assign columnName v row))"

fun returnedItems :: "queryDetails \<Rightarrow> 'v listItem list \<Rightarrow> string + 'v row list" where
  "returnedItems qd [] = Inr []"
| "returnedItems qd (item # items) =
     (case itemRow qd item (the (listColumns qd)) [] of
        Inl e \<Rightarrow> Inl e
      | Inr row \<Rightarrow> (case returnedItems qd items of Inl e \<Rightarrow> Inl e | Inr rows \<Rightarrow> Inr (row # rows)))"

section \<open>getListData\<close>

text \<open>
  The store answers each request once: with a page of items, or with a rejection and its
  message. A retrieval ends with the caller's success callback, with the caller's
  failure callback, with an exception that leaves the code (no callback runs), or it
  is still waiting for an answer. The exception of the first call reaches the caller of
  \<^verbatim>\<open>getListData\<close>; one raised inside a callback reaches nobody.
\<close>

datatype 'v response = Page "'v listItem list" | Rejected string

datatype 'r outcome =
    is_Success: Success 'r
  | is_Failure: Failure string
  | is_Thrown: Thrown string
  | is_Pending: Pending

record 'v retrieval =
  outcome :: "'v row list outcome"
  requests :: "request list"
  descriptor :: queryDetails

text \<open>The cursor arithmetic of the \<^verbatim>\<open>resolve\<close> closure when a page came back full.\<close>

definition advance :: "queryDetails \<Rightarrow> nat \<Rightarrow> queryDetails" where
  "advance qd collected =
     (let qd1 = (if collected = 5000
                 then qd\<lparr>pagePosition := map_option (\<lambda>p. p + 1) (pagePosition qd)\<rparr>
                 else qd)
      in qd1\<lparr>pagePosition := map_option (\<lambda>p. p + 5000) (pagePosition qd1)\<rparr>)"

text \<open>
  One call \<^verbatim>\<open>loadListData(queryDetails, resolve, reject)\<close> with everything that
  follows from it, against the answers the store will give, in order. \<open>listData\<close> is
  the accumulator of the closure, \<open>reqs\<close> the requests issued so far.
\<close>

fun requestLoop ::
  "queryDetails \<Rightarrow> 'v row list \<Rightarrow> 'v response list \<Rightarrow> request list \<Rightarrow> 'v retrieval" where
  "requestLoop qd listData [] reqs =
     (case loadListData_issue qd of
        (Inl e, qd') \<Rightarrow> \<lparr>outcome = Thrown e, requests = reqs, descriptor = qd'\<rparr>
      | (Inr rq, qd') \<Rightarrow> \<lparr>outcome = Pending, requests = reqs @ [rq], descriptor = qd'\<rparr>)"
| "requestLoop qd listData (answer # later) reqs =
     (case loadListData_issue qd of
        (Inl e, qd') \<Rightarrow> \<lparr>outcome = Thrown e, requests = reqs, descriptor = qd'\<rparr>
      | (Inr rq, qd') \<Rightarrow>
          (case answer of
             Rejected errorMessage \<Rightarrow>
               \<lparr>outcome = Failure errorMessage, requests = reqs @ [rq], descriptor = qd'\<rparr>
           | Page items \<Rightarrow>
               (case returnedItems qd' items of
                  Inl e \<Rightarrow> \<lparr>outcome = Thrown e, requests = reqs @ [rq], descriptor = qd'\<rparr>
                | Inr results \<Rightarrow>
                    if length results = 5000
                    then requestLoop (advance qd' (length (listData @ results)))
                           (listData @ results) later (reqs @ [rq])
                    else \<lparr>outcome = Success (listData @ results), requests = reqs @ [rq],
                          descriptor = qd'\<rparr>)))"

text \<open>The first statement of \<^verbatim>\<open>getListData\<close>, which writes to the caller's object.\<close>

definition defaultPagePosition :: "queryDetails \<Rightarrow> queryDetails" where
  "defaultPagePosition queryDetails =
     (if pagePosition queryDetails = None then queryDetails\<lparr>pagePosition := Some 0\<rparr>
      else queryDetails)"

definition getListData :: "queryDetails \<Rightarrow> 'v response list \<Rightarrow> 'v retrieval" where
  "getListData queryDetails answers =
     requestLoop (defaultPagePosition queryDetails) [] answers []"

section \<open>Writing list items\<close>

text \<open>
  One entry of \<^verbatim>\<open>columnData\<close>. The calls into the store's client library that build
  field values (the setters of a URL value and of a lookup value, and the construction
  of a user value) are a parameter: for a call and its argument the library either
  raises an error, given by its text, or accepts the argument.
\<close>

record columnDescriptor =
  c_Type :: "string option"
  c_URL :: jsval
  c_Description :: jsval
  c_LookupID :: jsval
  c_Value :: jsval

datatype spCall = Set_url | Set_description | Set_lookupId | FromUser

type_synonym spLibrary = "spCall \<Rightarrow> jsval \<Rightarrow> string option"

text \<open>A library whose setters store whatever they are given.\<close>

definition plainSetters :: spLibrary where
  "plainSetters call v = None"

datatype spObject =
    FieldUrlValue jsval jsval
  | FieldLookupValue jsval
  | FieldUserValue jsval

text \<open>The second argument of \<^verbatim>\<open>spItem.set_item\<close>.\<close>

datatype fieldValue = Object spObject | Objects "spObject list" | Null | Raw jsval

definition notAFunction :: "string \<Rightarrow> string" where
  "notAFunction f = ''TypeError: '' @ f @ '' is not a function''"

text \<open>A \<^verbatim>\<open>forEach\<close> that builds one library object per element and pushes it.\<close>

fun pushEach :: "spLibrary \<Rightarrow> spCall \<Rightarrow> (jsval \<Rightarrow> spObject) \<Rightarrow> jsval list \<Rightarrow> string + spObject list" where
  "pushEach sp call construct [] = Inr []"
| "pushEach sp call construct (x # xs) =
     (case sp call x of
        Some error \<Rightarrow> Inl error
      | None \<Rightarrow>
          (case pushEach sp call construct xs of
             Inl error \<Rightarrow> Inl error
           | Inr objs \<Rightarrow> Inr (construct x # objs)))"

text \<open>The user branch is the same text in both methods, up to the name of the argument.\<close>

definition userList :: "spLibrary \<Rightarrow> string \<Rightarrow> jsval \<Rightarrow> string + fieldValue" where
  "userList sp details v =
     (case v of
        Undefined \<Rightarrow> Inl (typeError ''constructor'')
      | Str s \<Rightarrow>
          (case sp FromUser (Str s) of
             Some error \<Rightarrow> Inl error
           | None \<Rightarrow> Inr (Objects [FieldUserValue (Str s)]))
      | Num n \<Rightarrow> Inl (notAFunction (details @ ''.columnData[key].Value.forEach''))
      | Arr xs \<Rightarrow>
          (case pushEach sp FromUser FieldUserValue xs of
             Inl error \<Rightarrow> Inl error
           | Inr objs \<Rightarrow> Inr (Objects objs)))"

subsection \<open>updateListItem\<close>

definition invalidUrlUpdate :: "string \<Rightarrow> string" where
  "invalidUrlUpdate error =
     ''spHelper Error: Invalid URL field details. Unable to update item ... '' @ error"

definition invalidLookupUpdate :: "string \<Rightarrow> string" where
  "invalidLookupUpdate error =
     ''spHelper Error: Invalid Lookup field details. Unable to update item ... '' @ error"

text \<open>
  The body of the loop over \<^verbatim>\<open>updateDetails.columnData\<close>: the value handed to
  \<^verbatim>\<open>set_item\<close> for one column, or the string or error thrown.
\<close>

definition updateField :: "spLibrary \<Rightarrow> columnDescriptor \<Rightarrow> string + fieldValue" where
  "updateField sp d =
     (case c_Type d of
        None \<Rightarrow> Inl (typeError ''toLowerCase'')
      | Some t \<Rightarrow>
          if toLowerCase t = ''url''
          then (case sp Set_url (c_URL d) of
                  Some error \<Rightarrow> Inl (invalidUrlUpdate error)
                | None \<Rightarrow>
                    (case sp Set_description (c_Description d) of
                       Some error \<Rightarrow> Inl (invalidUrlUpdate error)
                     | None \<Rightarrow> Inr (Object (FieldUrlValue (c_URL d) (c_Description d)))))
          else if toLowerCase t = ''lookup''
          then (if c_LookupID d \<noteq> Str []
                then (case sp Set_lookupId (c_LookupID d) of
                        Some error \<Rightarrow> Inl (invalidLookupUpdate error)
                      | None \<Rightarrow> Inr (Object (FieldLookupValue (c_LookupID d))))
                else Inr Null)
          else if toLowerCase t = ''user''
          then userList sp ''updateDetails'' (c_Value d)
          else Inr (Raw (c_Value d)))"

subsection \<open>addListItem\<close>

definition invalidUrlAdd :: "string \<Rightarrow> string" where
  "invalidUrlAdd error =
     ''spHelper Error: Invalid URL field details. Unable to add item ... '' @ error"

definition invalidLookupAdd :: "string \<Rightarrow> string" where
  "invalidLookupAdd error =
     ''spHelper Error: Invalid Lookup field details. Unable to add item ... '' @ error"

definition addField :: "spLibrary \<Rightarrow> columnDescriptor \<Rightarrow> string + fieldValue" where
  "addField sp d =
     (case c_Type d of
        None \<Rightarrow> Inl (typeError ''toLowerCase'')
      | Some t \<Rightarrow>
          if toLowerCase t = ''url''
          then (case sp Set_url (c_URL d) of
                  Some error \<Rightarrow> Inl (invalidUrlAdd error)
                | None \<Rightarrow>
                    (case sp Set_description (c_Description d) of
                       Some error \<Rightarrow> Inl (invalidUrlAdd error)
                     | None \<Rightarrow> Inr (Object (FieldUrlValue (c_URL d) (c_Description d)))))
          else if toLowerCase t = ''lookup''
          then (case c_LookupID d of
                  Undefined \<Rightarrow> Inl (invalidLookupAdd (typeError ''constructor''))
                | Num n \<Rightarrow>
                    (case sp Set_lookupId (Num n) of
                       Some error \<Rightarrow> Inl (invalidLookupAdd error)
                     | None \<Rightarrow> Inr (Object (FieldLookupValue (Num n))))
                | Str s \<Rightarrow>
                    (case sp Set_lookupId (Str s) of
                       Some error \<Rightarrow> Inl (invalidLookupAdd error)
                     | None \<Rightarrow> Inr (Object (FieldLookupValue (Str s))))
                | Arr iDs \<Rightarrow>
                    (case pushEach sp Set_lookupId FieldLookupValue iDs of
                       Inl error \<Rightarrow> Inl (invalidLookupAdd error)
                     | Inr spLookupFields \<Rightarrow> Inr (Objects spLookupFields)))
          else if toLowerCase t = ''user''
          then userList sp ''itemDetails'' (c_Value d)
          else Inr (Raw (c_Value d)))"

subsection \<open>The two methods\<close>

text \<open>
  The loop over the keys of \<^verbatim>\<open>columnData\<close>, in the order of the object: the
  \<^verbatim>\<open>set_item\<close> calls made, or the first value thrown. \<^verbatim>\<open>set_item\<close> itself and
  \<^verbatim>\<open>update\<close> only record the change; the outer \<^verbatim>\<open>catch\<close> of each method wraps
  whatever was thrown in its own message.
\<close>

fun setItems ::
  "(columnDescriptor \<Rightarrow> string + fieldValue) \<Rightarrow> (string \<times> columnDescriptor) list \<Rightarrow>
   string + (string \<times> fieldValue) list" where
  "setItems valueOf [] = Inr []"
| "setItems valueOf ((key, d) # rest) =
     (case valueOf d of
        Inl error \<Rightarrow> Inl error
      | Inr v \<Rightarrow> (case setItems valueOf rest of Inl error \<Rightarrow> Inl error | Inr sets \<Rightarrow> Inr ((key, v) # sets)))"

record updateDetails =
  u_listName :: "string option"
  u_itemID :: jsval
  u_columnData :: "(string \<times> columnDescriptor) list option"

record itemDetails =
  a_listName :: "string option"
  a_columnData :: "(string \<times> columnDescriptor) list option"

definition updateListItem :: "spLibrary \<Rightarrow> updateDetails \<Rightarrow> string + (string \<times> fieldValue) list" where
  "updateListItem sp updateDetails =
     (if u_listName updateDetails = None \<or> u_itemID updateDetails = Undefined \<or>
         u_columnData updateDetails = None
      then Inl ''spHelper Error: Invalid update details. To update an item, the list name, item ID, and column update data is required.''
      else case setItems (updateField sp) (the (u_columnData updateDetails)) of
             Inl error \<Rightarrow>
               Inl (''spHelper Error: Unable to update item. Validate update details ... '' @ error)
           | Inr sets \<Rightarrow> Inr sets)"

definition addListItem :: "spLibrary \<Rightarrow> itemDetails \<Rightarrow> string + (string \<times> fieldValue) list" where
  "addListItem sp itemDetails =
     (if a_listName itemDetails = None \<or> a_columnData itemDetails = None
      then Inl ''spHelper Error: Invalid create item details. To create an item, listName and columnData must be defined.''
      else case setItems (addField sp) (the (a_columnData itemDetails)) of
             Inl error \<Rightarrow>
               Inl (''SPHelper Error: Unable to add new item. Validate create details ... '' @ error)
           | Inr sets \<Rightarrow> Inr sets)"

section \<open>Reading compiled markup\<close>

text \<open>The field references and the value elements that occur in a piece list, in order.\<close>

definition fieldRefs :: "piece list \<Rightarrow> (string \<times> marker) list" where
  "fieldRefs ps = concat (map (\<lambda>p. case p of FieldRef c m \<Rightarrow> [(c, m)] | _ \<Rightarrow> []) ps)"

definition valueEls :: "piece list \<Rightarrow> (string \<times> string) list" where
  "valueEls ps = concat (map (\<lambda>p. case p of ValueEl t v \<Rightarrow> [(t, v)] | _ \<Rightarrow> []) ps)"

text \<open>The rows of a page whose items hold every requested column.\<close>

definition rowsOf :: "queryDetails \<Rightarrow> 'v listItem list \<Rightarrow> 'v row list" where
  "rowsOf qd items = (case returnedItems qd items of Inl e \<Rightarrow> [] | Inr rows \<Rightarrow> rows)"

section \<open>Example descriptors\<close>

definition customers :: queryDetails where
  "customers =
     \<lparr>listName = Some ''Customers'', listGuid = None,
      listColumns = Some [''Name'', ''Phone''], query = None, whereObj = None,
      joinObj = None, pagePosition = None\<rparr>"

definition customer :: "jsval listItem" where
  "customer c =
     (if c = ''Name'' then Inr (Str ''James'')
      else if c = ''Phone'' then Inr (Str ''555-123-4567'')
      else Inl ''The property or field has not been initialized.'')"

definition leaf :: "string \<Rightarrow> string \<Rightarrow> jsval \<Rightarrow> string option \<Rightarrow> whereClause" where
  "leaf c operation v t =
     \<lparr>w_column = c, w_operation = operation, w_value = v, w_type = t, w_values = None\<rparr>"

definition ids61 :: "jsval list" where
  "ids61 = map Num [1..61]"

text \<open>An item that holds the column Name only.\<close>

definition nameOnly :: "jsval listItem" where
  "nameOnly c =
     (if c = ''Name'' then Inr (Str ''Sarah'')
      else Inl ''The property or field has not been initialized.'')"

definition customersFax :: queryDetails where
  "customersFax = customers\<lparr>listColumns := Some [''Name'', ''Fax'']\<rparr>"

definition threePages :: "jsval listItem list list" where
  "threePages = [replicate 5000 customer, replicate 5000 customer, replicate 3217 customer]"

text \<open>A library whose setters raise on an absent argument.\<close>

definition strictSetters :: spLibrary where
  "strictSetters call v = (if v = Undefined then Some ''Value cannot be undefined.'' else None)"

definition lookupDescriptor :: "jsval \<Rightarrow> columnDescriptor" where
  "lookupDescriptor v =
     \<lparr>c_Type = Some ''Lookup'', c_URL = Undefined, c_Description = Undefined,
      c_LookupID = v, c_Value = Undefined\<rparr>"

definition urlDescriptor :: "jsval \<Rightarrow> jsval \<Rightarrow> columnDescriptor" where
  "urlDescriptor u d =
     \<lparr>c_Type = Some ''Url'', c_URL = u, c_Description = d,
      c_LookupID = Undefined, c_Value = Undefined\<rparr>"

section \<open>Properties of the write path\<close>

lemma lower_lookup: "toLowerCase ''Lookup'' = ''lookup''"
  by (simp add: toLowerCase_def lowerChar_def)

lemma lower_url: "toLowerCase ''Url'' = ''url''"
  by (simp add: toLowerCase_def lowerChar_def)

text \<open>
  C3. The create path and the update path are claimed to map every column descriptor
  to the same field value. They do not on Lookup descriptors. For the empty identifier
  \<^verbatim>\<open>LookupID: ''\<close> \<^verbatim>\<open>updateListItem\<close> sets the field to null, whatever the library
  does, while \<^verbatim>\<open>addListItem\<close> never does; for the identifier sequence
  \<^verbatim>\<open>LookupID: [3,7,9]\<close> the two methods never produce the same result.
\<close>

theorem lookup_paths_disagree:
  "updateField sp (lookupDescriptor (Str [])) = Inr Null \<and>
   addField sp (lookupDescriptor (Str [])) \<noteq> Inr Null \<and>
   updateField sp (lookupDescriptor (Arr [Num 3, Num 7, Num 9])) \<noteq>
   addField sp (lookupDescriptor (Arr [Num 3, Num 7, Num 9]))"
  by (auto simp add: updateField_def addField_def lookupDescriptor_def lower_lookup
      invalidLookupUpdate_def invalidLookupAdd_def split: option.splits sum.splits)

text \<open>
  C5. A Lookup descriptor with an identifier sequence is claimed to yield one lookup
  reference per element, and one with the empty identifier to clear the field. With a
  library that accepts every argument, \<^verbatim>\<open>updateListItem\<close> on \<^verbatim>\<open>[3,7,9]\<close> builds a
  single reference whose identifier is the whole sequence (\<^verbatim>\<open>addListItem\<close> builds the
  three references), and \<^verbatim>\<open>addListItem\<close> on \<^verbatim>\<open>''\<close> builds a reference with the empty
  identifier (\<^verbatim>\<open>updateListItem\<close> clears the field).
\<close>

theorem lookup_sequence_and_empty:
  "updateField plainSetters (lookupDescriptor (Arr [Num 3, Num 7, Num 9])) =
     Inr (Object (FieldLookupValue (Arr [Num 3, Num 7, Num 9]))) \<and>
   addField plainSetters (lookupDescriptor (Arr [Num 3, Num 7, Num 9])) =
     Inr (Objects [FieldLookupValue (Num 3), FieldLookupValue (Num 7), FieldLookupValue (Num 9)]) \<and>
   updateField plainSetters (lookupDescriptor (Str [])) = Inr Null \<and>
   addField plainSetters (lookupDescriptor (Str [])) = Inr (Object (FieldLookupValue (Str [])))"
  by (simp add: updateField_def addField_def lookupDescriptor_def lower_lookup plainSetters_def)

text \<open>
  C6, as stated, fails: a Url descriptor without a description is claimed to fail.
  With a library whose setters accept every argument, \<^verbatim>\<open>{Type: 'Url', URL: 'http://x'}\<close>
  is mapped to a URL value whose description is \<^verbatim>\<open>undefined\<close>; nothing is thrown.
\<close>

theorem url_without_description_accepted:
  "updateField plainSetters (urlDescriptor (Str ''http://x'') Undefined) =
     Inr (Object (FieldUrlValue (Str ''http://x'') Undefined))"
  by (simp add: updateField_def urlDescriptor_def lower_url plainSetters_def)

text \<open>
  C6, amended. For a descriptor whose type tag is Url (in any letter case), both
  methods hand \<^verbatim>\<open>URL\<close> and \<^verbatim>\<open>Description\<close> to the library's setters as they are,
  present or absent. When the setters accept them the field value exposes exactly these
  two values (an absent one stays \<^verbatim>\<open>undefined\<close>, nothing is put in its place);
  the mapping fails exactly when one of the two setters raises.
\<close>

theorem url_mapping:
  assumes "c_Type d = Some t" and "toLowerCase t = ''url''"
  shows "(if sp Set_url (c_URL d) = None \<and> sp Set_description (c_Description d) = None
          then updateField sp d = Inr (Object (FieldUrlValue (c_URL d) (c_Description d))) \<and>
               addField sp d = Inr (Object (FieldUrlValue (c_URL d) (c_Description d)))
          else isl (updateField sp d) \<and> isl (addField sp d))"
  using assms by (auto simp add: updateField_def addField_def split: option.splits)

theorem url_mapping_witness:
  "updateField plainSetters (urlDescriptor (Str ''http://x'') (Str ''x'')) =
     Inr (Object (FieldUrlValue (Str ''http://x'') (Str ''x''))) \<and>
   addField plainSetters (urlDescriptor (Str ''http://x'') (Str ''x'')) =
     Inr (Object (FieldUrlValue (Str ''http://x'') (Str ''x''))) \<and>
   isl (updateField strictSetters (urlDescriptor (Str ''http://x'') Undefined)) \<and>
   isl (addField strictSetters (urlDescriptor (Str ''http://x'') Undefined))"
  using url_mapping [of "urlDescriptor (Str ''http://x'') (Str ''x'')" "''Url''" plainSetters]
    url_mapping [of "urlDescriptor (Str ''http://x'') Undefined" "''Url''" strictSetters]
  by (simp add: urlDescriptor_def lower_url plainSetters_def strictSetters_def)

section \<open>Properties of the compiled where clause\<close>

declare batchLoop.simps [simp del]

lemma fieldRefs_append: "fieldRefs (xs @ ys) = fieldRefs xs @ fieldRefs ys"
  by (simp add: fieldRefs_def)

lemma valueEls_append: "valueEls (xs @ ys) = valueEls xs @ valueEls ys"
  by (simp add: valueEls_def)

lemma fieldRefs_simps:
  "fieldRefs [] = []"
  "fieldRefs (FieldRef c m # ps) = (c, m) # fieldRefs ps"
  "fieldRefs (Lit s # ps) = fieldRefs ps"
  "fieldRefs (Open s # ps) = fieldRefs ps"
  "fieldRefs (Close s # ps) = fieldRefs ps"
  "fieldRefs (ValueEl t v # ps) = fieldRefs ps"
  by (simp_all add: fieldRefs_def)

lemma valueEls_simps:
  "valueEls [] = []"
  "valueEls (ValueEl t v # ps) = (t, v) # valueEls ps"
  "valueEls (Lit s # ps) = valueEls ps"
  "valueEls (Open s # ps) = valueEls ps"
  "valueEls (Close s # ps) = valueEls ps"
  "valueEls (FieldRef c m # ps) = valueEls ps"
  by (simp_all add: valueEls_def)

lemma fieldRefs_valueElements: "fieldRefs (valueElements t vs) = []"
  by (induction vs) (simp_all add: fieldRefs_simps valueElements_def)

lemma valueEls_valueElements:
  "valueEls (valueElements t vs) = map (\<lambda>v. (typeText t, toString v)) vs"
  by (induction vs) (simp_all add: valueEls_simps valueElements_def)

lemma fieldRefs_batchLoop:
  "fieldRefs (batchLoop i batches w) = replicate (batches - i) (w_column w, Plain)"
proof (induction i batches w rule: batchLoop.induct)
  case (1 i batches w)
  show ?case
  proof (cases "i < batches")
    case True
    then have "batches - i = Suc (batches - (i + 1))" by simp
    with True 1 show ?thesis
      by (subst batchLoop.simps)
         (simp add: fieldRefs_append fieldRefs_valueElements fieldRefs_simps)
  next
    case False
    then show ?thesis by (subst batchLoop.simps) (simp add: fieldRefs_simps)
  qed
qed

lemma valueEls_batchLoop:
  "valueEls (batchLoop i batches w) =
     concat (replicate (batches - i)
       (map (\<lambda>v. (typeText (w_type w), toString v)) (elements (w_value w))))"
proof (induction i batches w rule: batchLoop.induct)
  case (1 i batches w)
  show ?case
  proof (cases "i < batches")
    case True
    then have "batches - i = Suc (batches - (i + 1))" by simp
    with True 1 show ?thesis
      by (subst batchLoop.simps)
         (simp add: valueEls_append valueEls_valueElements valueEls_simps)
  next
    case False
    then show ?thesis by (subst batchLoop.simps) (simp add: valueEls_simps)
  qed
qed

lemma wherePieces_fix:
  assumes "w_values w = None" and "toLowerCase (w_operation w) = ''in''"
    and "w_value w = Arr vs" and "length vs > 60"
  shows "fst (wherePieces w) =
     Inr ([Open ''Query'', Lit '' '', Open ''Where'', Open ''Or''] @
          batchLoop 0 (ceilDiv60 (length vs)) w @
          [Close ''Or'', Close ''Where'', Close ''Query''])"
  using assms
  by (simp add: wherePieces_def defaultValue_def leafPieces_def camlWhereInFix_def
      isArray_def elements_def)

text \<open>
  C10. When the In workaround is triggered (no \<^verbatim>\<open>values\<close>, operation In in any letter
  case, an array of more than 60 values), the field references of the compiled where
  section are one plain reference to the leaf's column per batch clause: none carries
  \<^verbatim>\<open>LookupId='TRUE'\<close>, whatever the type tag and the values are.
\<close>

theorem batched_field_refs_plain:
  assumes "w_values w = None" and "toLowerCase (w_operation w) = ''in''"
    and "w_value w = Arr vs" and "length vs > 60"
  shows "map_sum id fieldRefs (fst (wherePieces w)) =
           Inr (replicate (ceilDiv60 (length vs)) (w_column w, Plain))"
  using wherePieces_fix [OF assms]
  by (simp add: fieldRefs_append fieldRefs_batchLoop fieldRefs_simps)

lemma lower_In: "toLowerCase ''In'' = ''in''"
  by (simp add: toLowerCase_def lowerChar_def)

lemma length_ids61: "length ids61 = 61"
  by (simp add: ids61_def)

theorem batched_field_refs_plain_witness:
  "map_sum id fieldRefs (fst (wherePieces (leaf ''Owner'' ''In'' (Arr ids61) (Some ''Lookup'')))) =
     Inr [(''Owner'', Plain), (''Owner'', Plain)]"
  using batched_field_refs_plain [of "leaf ''Owner'' ''In'' (Arr ids61) (Some ''Lookup'')" ids61]
  by (simp add: leaf_def lower_In length_ids61 ceilDiv60_def numeral_2_eq_2)

text \<open>
  C1. For more than 60 values the batches are claimed to partition the values. For the
  61 values 1, ..., 61 the code emits two membership clauses, as claimed, but the
  \<^verbatim>\<open>forEach\<close> inside the loop runs over the whole of \<^verbatim>\<open>where.value\<close> in each pass:
  the value elements of the compiled where section are all 61 values followed by all 61
  values again, not 60 values and then 1.
\<close>

theorem in_batches_repeat_every_value:
  "map_sum id (map snd \<circ> valueEls)
     (fst (wherePieces (leaf ''ID'' ''In'' (Arr ids61) (Some ''Number'')))) =
   Inr (map toString ids61 @ map toString ids61)"
  using wherePieces_fix [of "leaf ''ID'' ''In'' (Arr ids61) (Some ''Number'')" ids61]
  by (simp add: leaf_def lower_In length_ids61 ceilDiv60_def numeral_2_eq_2
      valueEls_append valueEls_batchLoop valueEls_simps elements_def comp_def)

lemma single_leaf:
  assumes "w_values w = None" and "\<not> isArray (w_value w)"
  shows "fst (wherePieces w) =
     Inr ([Open ''Query'', Lit '' '', Open ''Where'', Open (w_operation w), Lit '' '',
           FieldRef (w_column w)
             (if w_type w \<noteq> None \<and> toLowerCase (the (w_type w)) = ''lookup'' \<and>
                 \<not> isNaN (w_value (defaultValue w))
              then LookupId else Plain)] @
          (if w_type w \<noteq> None
           then [ValueEl (typeText (w_type w)) (toString (w_value (defaultValue w)))] else []) @
          [Close (w_operation w), Close ''Where'', Close ''Query''])"
  using assms
  by (simp add: wherePieces_def defaultValue_def leafPieces_def camlWhereInFix_def
      isArray_def Let_def)

lemma renderAll_simps:
  "renderAll [] = []"
  "renderAll (p # ps) = render p @ renderAll ps"
  by (simp_all add: renderAll_def)

lemma isNaN_blank: "\<not> isNaN (Str '' '')"
  by (simp add: isNaN_def numericString_def trim_def isSpace_def)

lemma isNaN_42: "\<not> isNaN (Str ''42'')"
  by (simp add: isNaN_def numericString_def trim_def isSpace_def radixLiteral_def dropSign_def
      decimalLiteral_def isDigit_def exponentPart_def)

lemma isNaN_Engineering: "isNaN (Str ''Engineering'')"
  by (simp add: isNaN_def numericString_def trim_def isSpace_def radixLiteral_def dropSign_def
      decimalLiteral_def isDigit_def exponentPart_def)

text \<open>
  C7. A leaf with one comparison value and the type tag Lookup is claimed to carry
  \<^verbatim>\<open>LookupId='TRUE'\<close> for a numeric value and not for any other. The code decides
  with \<^verbatim>\<open>!isNaN(value)\<close>. The view XML it writes has the marker for \<^verbatim>\<open>"42"\<close> and
  has none for \<^verbatim>\<open>"Engineering"\<close>, as claimed; for the value of one blank, which is
  no number, it has the marker too.
\<close>

theorem lookup_marker_on_blank_value:
  "map_sum id renderAll
     (fst (wherePieces (leaf ''Department'' ''Eq'' (Str '' '') (Some ''Lookup'')))) =
     Inr ''<Query> <Where><Eq> <FieldRef Name='Department' LookupId='TRUE'/><Value Type='Lookup'> </Value></Eq></Where></Query>'' \<and>
   map_sum id renderAll
     (fst (wherePieces (leaf ''Department'' ''Eq'' (Str ''42'') (Some ''Lookup'')))) =
     Inr ''<Query> <Where><Eq> <FieldRef Name='Department' LookupId='TRUE'/><Value Type='Lookup'>42</Value></Eq></Where></Query>'' \<and>
   map_sum id renderAll
     (fst (wherePieces (leaf ''Department'' ''Eq'' (Str ''Engineering'') (Some ''Lookup'')))) =
     Inr ''<Query> <Where><Eq> <FieldRef Name='Department' /><Value Type='Lookup'>Engineering</Value></Eq></Where></Query>''"
  using single_leaf [of "leaf ''Department'' ''Eq'' (Str '' '') (Some ''Lookup'')"]
    single_leaf [of "leaf ''Department'' ''Eq'' (Str ''42'') (Some ''Lookup'')"]
    single_leaf [of "leaf ''Department'' ''Eq'' (Str ''Engineering'') (Some ''Lookup'')"]
  by (simp add: leaf_def isArray_def defaultValue_def typeText_def lower_lookup
      isNaN_blank isNaN_42 isNaN_Engineering renderAll_simps quoted_def)

text \<open>
  C8, as stated, fails: a leaf with an empty value is claimed to compile without a value
  element whether or not a type tag is supplied. With the type tag Text and the value
  \<^verbatim>\<open>''\<close> the view XML holds the value element \<^verbatim>\<open><Value Type='Text'></Value>\<close>.
\<close>

theorem empty_string_with_type_has_value_element:
  "map_sum id renderAll (fst (wherePieces (leaf ''Title'' ''Eq'' (Str []) (Some ''Text'')))) =
     Inr ''<Query> <Where><Eq> <FieldRef Name='Title' /><Value Type='Text'></Value></Eq></Where></Query>'' \<and>
   map_sum id valueEls (fst (wherePieces (leaf ''Title'' ''Eq'' (Str []) (Some ''Text'')))) =
     Inr [(''Text'', [])]"
  using single_leaf [of "leaf ''Title'' ''Eq'' (Str []) (Some ''Text'')"]
  by (simp add: leaf_def isArray_def defaultValue_def typeText_def valueEls_simps
      toLowerCase_def lowerChar_def renderAll_simps quoted_def)

text \<open>
  C8, amended. For a leaf at the top of the where object (no \<^verbatim>\<open>values\<close>): when no type
  tag is supplied and the value is omitted or the empty string, the view XML holds the
  field reference for the leaf's column and no value element; when the value is the
  empty string and a type tag other than Lookup is supplied, it holds the field
  reference and one value element of that type with empty content.
\<close>

theorem empty_value_top_level_leaf:
  assumes "w_values w = None"
  shows "(w_type w = None \<and> (w_value w = Undefined \<or> w_value w = Str []) \<longrightarrow>
            fst (wherePieces w) =
              Inr [Open ''Query'', Lit '' '', Open ''Where'', Open (w_operation w), Lit '' '',
                   FieldRef (w_column w) Plain,
                   Close (w_operation w), Close ''Where'', Close ''Query''] \<and>
            map_sum id renderAll (fst (wherePieces w)) =
              Inr (''<Query> <Where><'' @ w_operation w @ ''> <FieldRef Name='' @
                   quoted (w_column w) @ '' /></'' @ w_operation w @ ''></Where></Query>'')) \<and>
         (w_type w = Some t \<and> toLowerCase t \<noteq> ''lookup'' \<and> w_value w = Str [] \<longrightarrow>
            fst (wherePieces w) =
              Inr [Open ''Query'', Lit '' '', Open ''Where'', Open (w_operation w), Lit '' '',
                   FieldRef (w_column w) Plain, ValueEl t [],
                   Close (w_operation w), Close ''Where'', Close ''Query''] \<and>
            map_sum id renderAll (fst (wherePieces w)) =
              Inr (''<Query> <Where><'' @ w_operation w @ ''> <FieldRef Name='' @
                   quoted (w_column w) @ '' /><Value Type='' @ quoted t @ ''></Value></'' @
                   w_operation w @ ''></Where></Query>''))"
  using assms single_leaf [of w]
  by (auto simp add: isArray_def defaultValue_def typeText_def renderAll_simps)

theorem empty_value_top_level_leaf_witness:
  "map_sum id renderAll (fst (wherePieces (leaf ''Title'' ''IsNull'' Undefined None))) =
     Inr ''<Query> <Where><IsNull> <FieldRef Name='Title' /></IsNull></Where></Query>'' \<and>
   map_sum id renderAll (fst (wherePieces (leaf ''Title'' ''IsNull'' (Str []) None))) =
     Inr ''<Query> <Where><IsNull> <FieldRef Name='Title' /></IsNull></Where></Query>'' \<and>
   map_sum id renderAll (fst (wherePieces (leaf ''Title'' ''Eq'' (Str []) (Some ''Text'')))) =
     Inr ''<Query> <Where><Eq> <FieldRef Name='Title' /><Value Type='Text'></Value></Eq></Where></Query>''"
  using empty_value_top_level_leaf [of "leaf ''Title'' ''IsNull'' Undefined None" "''Text''"]
    empty_value_top_level_leaf [of "leaf ''Title'' ''IsNull'' (Str []) None" "''Text''"]
    empty_value_top_level_leaf [of "leaf ''Title'' ''Eq'' (Str []) (Some ''Text'')" "''Text''"]
  by (simp add: leaf_def toLowerCase_def lowerChar_def quoted_def renderAll_simps)

section \<open>Properties of loadListData\<close>

lemma defaultValue_idem: "defaultValue (defaultValue w) = defaultValue w"
  by (simp add: defaultValue_def)

lemma wherePieces_snd: "snd (wherePieces w) = defaultValue w"
  by (simp add: wherePieces_def Let_def)

lemma wherePieces_again: "wherePieces (defaultValue w) = wherePieces w"
  by (simp add: wherePieces_def defaultValue_idem)

lemma customQuery_snd:
  "snd (customQuery qd cols) = qd\<lparr>whereObj := map_option defaultValue (whereObj qd)\<rparr>"
  by (cases "whereObj qd")
     (auto simp add: customQuery_def Let_def wherePieces_snd [symmetric] split: prod.splits sum.splits)

lemma customQuery_again:
  "fst (customQuery (qd\<lparr>whereObj := map_option defaultValue (whereObj qd), pagePosition := p\<rparr>) cols) =
   fst (customQuery qd cols)"
  by (cases "whereObj qd")
     (auto simp add: customQuery_def Let_def wherePieces_again split: prod.splits sum.splits)


lemma issue_invalid:
  assumes "(listName qd = None \<and> listGuid qd = None) \<or> listColumns qd = None \<or>
           pagePosition qd = None"
  shows "loadListData_issue qd = (Inl invalidQueryDetails, qd)"
  using assms by (simp add: loadListData_issue_def)

lemma issue_valid:
  assumes "\<not> ((listName qd = None \<and> listGuid qd = None) \<or> listColumns qd = None \<or>
           pagePosition qd = None)"
  shows "loadListData_issue qd =
     (case (case query qd of
              Some q \<Rightarrow> Inr q
            | None \<Rightarrow> map_sum id renderAll (fst (customQuery qd (the (listColumns qd))))) of
        Inl e \<Rightarrow> Inl (unableToRead e)
      | Inr x \<Rightarrow>
          Inr \<lparr>r_list = (case listName qd of Some n \<Rightarrow> ByTitle n | None \<Rightarrow> ById (the (listGuid qd))),
               r_viewXml = x,
               r_position = the (pagePosition qd),
               r_pagingInfo = ''Paged=TRUE&p_ID='' @ showInt (the (pagePosition qd)),
               r_include = ''Include('' @ joinWith '','' (the (listColumns qd)) @ '')''\<rparr>,
      if query qd \<noteq> None then qd
      else qd\<lparr>whereObj := map_option defaultValue (whereObj qd)\<rparr>)"
proof (cases "query qd")
  case (Some q)
  with assms show ?thesis
    by (auto simp add: loadListData_issue_def Let_def)
next
  case None
  obtain res qd' where cq: "customQuery qd (the (listColumns qd)) = (res, qd')"
    by (cases "customQuery qd (the (listColumns qd))")
  with customQuery_snd [of qd "the (listColumns qd)"]
  have qd': "qd' = qd\<lparr>whereObj := map_option defaultValue (whereObj qd)\<rparr>" by simp
  from assms None cq qd' show ?thesis
    by (cases res) (auto simp add: loadListData_issue_def Let_def)
qed

lemma issue_snd:
  "snd (loadListData_issue qd) =
     (if (listName qd = None \<and> listGuid qd = None) \<or> listColumns qd = None \<or>
         pagePosition qd = None \<or> query qd \<noteq> None
      then qd else qd\<lparr>whereObj := map_option defaultValue (whereObj qd)\<rparr>)"
proof (cases "(listName qd = None \<and> listGuid qd = None) \<or> listColumns qd = None \<or>
           pagePosition qd = None")
  case True
  then show ?thesis using issue_invalid [OF True] by auto
next
  case False
  then show ?thesis using issue_valid [OF False] by auto
qed

lemma issue_ok_valid:
  assumes "\<not> isl (fst (loadListData_issue qd))"
  shows "\<not> ((listName qd = None \<and> listGuid qd = None) \<or> listColumns qd = None \<or>
           pagePosition qd = None)"
proof
  assume "(listName qd = None \<and> listGuid qd = None) \<or> listColumns qd = None \<or>
           pagePosition qd = None"
  from issue_invalid [OF this] assms show False by simp
qed

lemma issue_position:
  assumes "loadListData_issue qd = (Inr rq, qd')"
  shows "pagePosition qd = Some (r_position rq)"
proof -
  from assms have "\<not> isl (fst (loadListData_issue qd))" by simp
  from issue_ok_valid [OF this] have v: "\<not> ((listName qd = None \<and> listGuid qd = None) \<or> listColumns qd = None \<or>
           pagePosition qd = None)" .
  with assms issue_valid [OF v] show ?thesis
    by (auto split: sum.splits)
qed

lemma issue_frame:
  "pagePosition (snd (loadListData_issue qd)) = pagePosition qd"
  "listName (snd (loadListData_issue qd)) = listName qd"
  "listGuid (snd (loadListData_issue qd)) = listGuid qd"
  "listColumns (snd (loadListData_issue qd)) = listColumns qd"
  by (simp_all add: issue_snd)

lemma issue_isl:
  assumes "\<not> ((listName qd = None \<and> listGuid qd = None) \<or> listColumns qd = None \<or>
           pagePosition qd = None)"
  shows "isl (fst (loadListData_issue qd)) =
           (query qd = None \<and> isl (fst (customQuery qd (the (listColumns qd)))))"
proof (cases "query qd")
  case (Some q)
  with issue_valid [OF assms] show ?thesis by simp
next
  case None
  with issue_valid [OF assms] show ?thesis
    by (cases "fst (customQuery qd (the (listColumns qd)))") simp_all
qed

lemma issue_stable:
  assumes "\<not> isl (fst (loadListData_issue qd))"
  shows "\<not> isl (fst (loadListData_issue ((snd (loadListData_issue qd))\<lparr>pagePosition := Some p\<rparr>)))"
proof -
  let ?qd2 = "(snd (loadListData_issue qd))\<lparr>pagePosition := Some p\<rparr>"
  from issue_ok_valid [OF assms]
  have v: "\<not> ((listName qd = None \<and> listGuid qd = None) \<or> listColumns qd = None \<or>
           pagePosition qd = None)" .
  then have v2: "\<not> ((listName ?qd2 = None \<and> listGuid ?qd2 = None) \<or> listColumns ?qd2 = None \<or>
           pagePosition ?qd2 = None)"
    by (simp add: issue_frame)
  show ?thesis
  proof (cases "query qd")
    case (Some q)
    then have "query ?qd2 = Some q" by (auto simp add: issue_snd)
    with issue_isl [OF v2] show ?thesis by simp
  next
    case None
    with v have q2: "?qd2 = qd\<lparr>whereObj := map_option defaultValue (whereObj qd), pagePosition := Some p\<rparr>"
      by (auto simp add: issue_snd)
    from assms issue_isl [OF v] None
    have "\<not> isl (fst (customQuery qd (the (listColumns qd))))" by simp
    with customQuery_again [where qd = qd and p = "Some p" and cols = "the (listColumns qd)"]
    have "\<not> isl (fst (customQuery ?qd2 (the (listColumns ?qd2))))"
      by (simp add: q2)
    with issue_isl [OF v2] show ?thesis by simp
  qed
qed

lemma returnedItems_frame:
  assumes "listColumns qd1 = listColumns qd2" and "listName qd1 = listName qd2"
    and "listGuid qd1 = listGuid qd2"
  shows "returnedItems qd1 items = returnedItems qd2 items"
proof -
  have cm: "columnMissing qd1 c e = columnMissing qd2 c e" for c e
    using assms by (cases "listName qd2") (simp_all add: columnMissing_def)
  have row: "itemRow qd1 item cs row = itemRow qd2 item cs row" for item cs and row :: "'a row"
    by (induction cs arbitrary: row) (simp_all add: cm split: sum.splits)
  show ?thesis
    using assms by (induction items) (simp_all add: row cong: sum.case_cong)
qed

lemma returnedItems_length:
  "returnedItems qd items = Inr rows \<Longrightarrow> length rows = length items"
  by (induction items arbitrary: rows) (auto split: sum.splits)

section \<open>Properties of getListData\<close>

lemma advance_eq:
  assumes "pagePosition qd = Some p"
  shows "advance qd n = qd\<lparr>pagePosition := Some (p + (if n = 5000 then 1 else 0) + 5000)\<rparr>"
  using assms by (simp add: advance_def Let_def)

lemma rowsOf_frame:
  assumes "listColumns qd1 = listColumns qd2" and "listName qd1 = listName qd2"
    and "listGuid qd1 = listGuid qd2"
  shows "rowsOf qd1 items = rowsOf qd2 items"
  using returnedItems_frame [OF assms, of items] by (simp add: rowsOf_def)

lemma issue_ok_pair:
  assumes "\<not> isl (fst (loadListData_issue qd))"
  obtains rq qd' where "loadListData_issue qd = (Inr rq, qd')"
proof (cases "loadListData_issue qd")
  case (Pair a b)
  with assms show thesis by (cases a) (auto intro: that)
qed

lemma loop_empty:
  assumes "loadListData_issue qd = (Inr rq, qd')"
  shows "requestLoop qd listData [] reqs =
           \<lparr>outcome = Pending, requests = reqs @ [rq], descriptor = qd'\<rparr>"
  using assms by simp

lemma loop_rejected:
  assumes "loadListData_issue qd = (Inr rq, qd')"
  shows "requestLoop qd listData (Rejected m # later) reqs =
           \<lparr>outcome = Failure m, requests = reqs @ [rq], descriptor = qd'\<rparr>"
  using assms by simp

lemma loop_thrown:
  assumes "loadListData_issue qd = (Inl e, qd')"
  shows "requestLoop qd listData answers reqs =
           \<lparr>outcome = Thrown e, requests = reqs, descriptor = qd'\<rparr>"
  using assms by (cases answers) simp_all

lemma loop_page_error:
  assumes "loadListData_issue qd = (Inr rq, qd')" and "returnedItems qd items = Inl e"
  shows "requestLoop qd listData (Page items # later) reqs =
           \<lparr>outcome = Thrown e, requests = reqs @ [rq], descriptor = qd'\<rparr>"
proof -
  from assms(1) have "qd' = snd (loadListData_issue qd)" by simp
  then have "returnedItems qd' items = returnedItems qd items"
    by (intro returnedItems_frame) (simp_all add: issue_frame)
  with assms show ?thesis by simp
qed

lemma loop_page:
  assumes "loadListData_issue qd = (Inr rq, qd')" and "returnedItems qd items = Inr results"
  shows "requestLoop qd listData (Page items # later) reqs =
           (if length items = 5000
            then requestLoop (advance qd' (length listData + 5000)) (listData @ results) later
                   (reqs @ [rq])
            else \<lparr>outcome = Success (listData @ results), requests = reqs @ [rq],
                  descriptor = qd'\<rparr>)"
proof -
  from assms(1) have "qd' = snd (loadListData_issue qd)" by simp
  then have "returnedItems qd' items = returnedItems qd items"
    by (intro returnedItems_frame) (simp_all add: issue_frame)
  with assms returnedItems_length [OF assms(2)] show ?thesis by simp
qed

lemma loop_pages:
  assumes "\<not> isl (fst (loadListData_issue qd))"
    and "\<forall>items\<in>set pages. \<not> isl (returnedItems qd items)"
    and "pagePosition qd = Some p"
  shows "outcome (requestLoop qd listData (map Page pages) reqs) =
           (if length (takeWhile (\<lambda>items. length items = 5000) pages) < length pages
            then Success (listData @ concat (map (rowsOf qd)
                   (take (Suc (length (takeWhile (\<lambda>items. length items = 5000) pages))) pages)))
            else Pending) \<and>
         map r_position (requests (requestLoop qd listData (map Page pages) reqs)) =
           map r_position reqs @
           map (\<lambda>i. p + 5000 * int i + (if 0 < i \<and> listData = [] then 1 else 0))
             [0..<Suc (length (takeWhile (\<lambda>items. length items = 5000) pages))] \<and>
         pagePosition (descriptor (requestLoop qd listData (map Page pages) reqs)) =
           Some (p + 5000 * int (length (takeWhile (\<lambda>items. length items = 5000) pages)) +
                 (if pages \<noteq> [] \<and> length (hd pages) = 5000 \<and> listData = [] then 1 else 0))"
  using assms
proof (induction pages arbitrary: qd listData reqs p)
  case Nil
  then obtain rq qd' where iss: "loadListData_issue qd = (Inr rq, qd')"
    using issue_ok_pair by blast
  from issue_position [OF iss] Nil.prems have "r_position rq = p" by simp
  moreover from iss issue_frame(1) [of qd] have "pagePosition qd' = pagePosition qd" by simp
  ultimately show ?case using iss Nil.prems by simp
next
  case (Cons items rest)
  then obtain rq qd' where iss: "loadListData_issue qd = (Inr rq, qd')"
    using issue_ok_pair by blast
  from Cons.prems obtain results where res: "returnedItems qd items = Inr results"
    by (cases "returnedItems qd items") auto
  then have rows: "rowsOf qd items = results" by (simp add: rowsOf_def)
  from issue_position [OF iss] Cons.prems have pos: "r_position rq = p" by simp
  from iss have qd': "qd' = snd (loadListData_issue qd)" by simp
  then have pp: "pagePosition qd' = Some p" using Cons.prems by (simp add: issue_frame)
  show ?case
  proof (cases "length items = 5000")
    case False
    with loop_page [OF iss res] pos pp rows show ?thesis by simp
  next
    case True
    let ?d = "if listData = [] then 1 else (0::int)"
    let ?qd2 = "advance qd' (length listData + 5000)"
    have adv: "?qd2 = (snd (loadListData_issue qd))\<lparr>pagePosition := Some (p + ?d + 5000)\<rparr>"
      using advance_eq [OF pp, of "length listData + 5000"] qd' by simp
    have ok2: "\<not> isl (fst (loadListData_issue ?qd2))"
      unfolding adv using Cons.prems(1) by (rule issue_stable)
    have fr: "listColumns ?qd2 = listColumns qd" "listName ?qd2 = listName qd"
      "listGuid ?qd2 = listGuid qd"
      by (simp_all add: adv issue_frame)
    have rows2: "rowsOf ?qd2 = rowsOf qd"
      by (rule ext) (rule rowsOf_frame [OF fr])
    have rf: "returnedItems ?qd2 its = returnedItems qd its" for its :: "'a listItem list"
      by (rule returnedItems_frame [OF fr])
    have all2: "\<forall>its\<in>set rest. \<not> isl (returnedItems ?qd2 its)"
      using Cons.prems(2) by (simp add: rf)
    have pp2: "pagePosition ?qd2 = Some (p + ?d + 5000)" by (simp add: adv)
    from returnedItems_length [OF res] True have "results \<noteq> []" by auto
    then have ne: "listData @ results \<noteq> []" by simp
    note IH = Cons.IH [OF ok2 all2 pp2, of "listData @ results" "reqs @ [rq]"]
    have step: "requestLoop qd listData (map Page (items # rest)) reqs =
                requestLoop ?qd2 (listData @ results) (map Page rest) (reqs @ [rq])"
      using loop_page [OF iss res] True by simp
    have shift: "map (\<lambda>i. p + 5000 * int i + (if 0 < i \<and> listData = [] then 1 else 0))
                   [0..<Suc (Suc n)] =
                 p # map (\<lambda>i. (p + ?d + 5000) + 5000 * int i + 0) [0..<Suc n]" for n
      by (subst map_upt_Suc) (auto simp add: algebra_simps)
    show ?thesis
      unfolding step using IH True ne rows pos
      by (simp add: rows2 shift del: upt_Suc)
  qed
qed

lemma default_frame:
  "listColumns (defaultPagePosition qd) = listColumns qd"
  "listName (defaultPagePosition qd) = listName qd"
  "listGuid (defaultPagePosition qd) = listGuid qd"
  "pagePosition (defaultPagePosition qd) \<noteq> None"
  by (simp_all add: defaultPagePosition_def)

lemma returnedItems_default:
  "returnedItems (defaultPagePosition qd) items = returnedItems qd items"
  by (rule returnedItems_frame) (simp_all add: default_frame)

lemma rowsOf_default: "rowsOf (defaultPagePosition qd) = rowsOf qd"
  by (rule ext) (simp add: rowsOf_def returnedItems_default)

lemma rowsOf_length:
  "\<not> isl (returnedItems qd items) \<Longrightarrow> length (rowsOf qd items) = length items"
  by (cases "returnedItems qd items") (simp_all add: rowsOf_def returnedItems_length)

lemma returnedItems_replicate:
  assumes "itemRow qd item (the (listColumns qd)) [] = Inr row"
  shows "returnedItems qd (replicate n item) = Inr (replicate n row)"
  using assms by (induction n) simp_all

text \<open>
  C2. Let the descriptor be accepted by \<^verbatim>\<open>loadListData\<close> and let the store answer with
  pages whose items hold every requested column. If \<open>k\<close> is the number of leading pages
  of exactly 5000 items, \<^verbatim>\<open>getListData\<close> issues \<open>k + 1\<close> requests, at the cursor it
  started from and then at that cursor plus 5001, 10001, ...; it delivers the rows of
  the first \<open>k + 1\<close> pages, in order, to the success callback when a shorter page ends
  the run, and is still waiting when every page was full. For pages of sizes 5000,
  5000, 3217 from cursor 0 these are 3 requests at 0, 5001, 10001 and 13217 rows.
\<close>

theorem paging_by_full_pages:
  assumes "\<not> isl (fst (loadListData_issue (defaultPagePosition qd)))"
    and "\<forall>items\<in>set pages. \<not> isl (returnedItems qd items)"
  shows "(let k = length (takeWhile (\<lambda>items. length items = 5000) pages);
              start = the (pagePosition (defaultPagePosition qd));
              r = getListData qd (map Page pages)
          in length (requests r) = Suc k \<and>
             map r_position (requests r) =
               map (\<lambda>i. if i = 0 then start else start + 5000 * int i + 1) [0..<Suc k] \<and>
             outcome r =
               (if k < length pages
                then Success (concat (map (rowsOf qd) (take (Suc k) pages)))
                else Pending) \<and>
             (map length pages = [5000, 5000, 3217] \<and> start = 0 \<longrightarrow>
                length (requests r) = 3 \<and>
                map r_position (requests r) = [0, 5001, 10001] \<and>
                outcome r = Success (concat (map (rowsOf qd) pages)) \<and>
                length (concat (map (rowsOf qd) pages)) = 13217))"
proof -
  let ?qd = "defaultPagePosition qd"
  let ?k = "length (takeWhile (\<lambda>items. length items = 5000) pages)"
  let ?start = "the (pagePosition ?qd)"
  let ?r = "getListData qd (map Page pages)"
  have pp: "pagePosition ?qd = Some ?start"
    using default_frame(4) [of qd] by auto
  have all: "\<forall>items\<in>set pages. \<not> isl (returnedItems ?qd items)"
    using assms(2) by (simp add: returnedItems_default)
  note L = loop_pages [OF assms(1) all pp, of "[]" "[]", folded getListData_def]
  have pos: "map r_position (requests ?r) =
      map (\<lambda>i. if i = 0 then ?start else ?start + 5000 * int i + 1) [0..<Suc ?k]"
    using L by (auto simp del: upt_Suc)
  have len: "length (requests ?r) = Suc ?k"
    using arg_cong [OF pos, of length] by (simp del: upt_Suc)
  have out: "outcome ?r =
      (if ?k < length pages then Success (concat (map (rowsOf qd) (take (Suc ?k) pages)))
       else Pending)"
    using L by (simp add: rowsOf_default)
  have scen: "length (requests ?r) = 3 \<and>
              map r_position (requests ?r) = [0, 5001, 10001] \<and>
              outcome ?r = Success (concat (map (rowsOf qd) pages)) \<and>
              length (concat (map (rowsOf qd) pages)) = 13217"
    if sizes: "map length pages = [5000, 5000, 3217]" and st: "?start = 0"
  proof -
    from sizes obtain p1 p2 p3 where pages: "pages = [p1, p2, p3]"
      and l: "length p1 = 5000" "length p2 = 5000" "length p3 = 3217"
      by (auto simp add: map_eq_Cons_conv)
    have k: "?k = 2" using pages l by simp
    have lp: "length pages = 3" "take (Suc 2) pages = pages" using pages by simp_all
    have "length (rowsOf qd p1) = 5000" "length (rowsOf qd p2) = 5000"
      "length (rowsOf qd p3) = 3217"
      using assms(2) pages l by (simp_all add: rowsOf_length)
    then have total: "length (concat (map (rowsOf qd) pages)) = 13217"
      using pages by simp
    have upt3: "map f [0..<Suc 2] = [f 0, f 1, f 2]" for f :: "nat \<Rightarrow> int"
      by (simp add: numeral_2_eq_2 upt_rec)
    have "map r_position (requests ?r) = [0, 5001, 10001]"
      using pos [unfolded k upt3] st by simp
    moreover have "length (requests ?r) = 3"
      using len [unfolded k] by simp
    moreover have "outcome ?r = Success (concat (map (rowsOf qd) pages))"
      using out [unfolded k] lp by simp
    ultimately show ?thesis using total by simp
  qed
  show ?thesis
    unfolding Let_def
  proof (intro conjI impI)
    show "length (requests ?r) = Suc ?k" by (rule len)
    show "map r_position (requests ?r) =
      map (\<lambda>i. if i = 0 then ?start else ?start + 5000 * int i + 1) [0..<Suc ?k]"
      by (rule pos)
    show "outcome ?r =
      (if ?k < length pages then Success (concat (map (rowsOf qd) (take (Suc ?k) pages)))
       else Pending)" by (rule out)
  next
    assume "map length pages = [5000, 5000, 3217] \<and> ?start = 0"
    then have s: "map length pages = [5000, 5000, 3217]" "?start = 0" by simp_all
    from scen [OF s] show "length (requests ?r) = 3" by simp
    from scen [OF s] show "map r_position (requests ?r) = [0, 5001, 10001]" by simp
    from scen [OF s] show "outcome ?r = Success (concat (map (rowsOf qd) pages))" by simp
    from scen [OF s] show "length (concat (map (rowsOf qd) pages)) = 13217" by simp
  qed
qed

lemma customers_accepted:
  "\<not> isl (fst (loadListData_issue (defaultPagePosition customers)))"
  by (simp add: issue_isl customers_def defaultPagePosition_def customQuery_def)

lemma customer_row:
  "itemRow customers customer (the (listColumns customers)) [] =
     Inr [(''Name'', Str ''James''), (''Phone'', Str ''555-123-4567'')]"
  by (simp add: customers_def customer_def)

lemma customer_pages:
  "returnedItems customers (replicate n customer) =
     Inr (replicate n [(''Name'', Str ''James''), (''Phone'', Str ''555-123-4567'')])"
  by (rule returnedItems_replicate [OF customer_row])

theorem paging_by_full_pages_witness:
  "length (requests (getListData customers (map Page threePages))) = 3 \<and>
   map r_position (requests (getListData customers (map Page threePages))) =
     [0, 5001, 10001] \<and>
   outcome (getListData customers (map Page threePages)) =
     Success (concat (map (rowsOf customers) threePages)) \<and>
   length (concat (map (rowsOf customers) threePages)) = 13217"
proof -
  have st: "the (pagePosition (defaultPagePosition customers)) = 0"
    by (simp add: customers_def defaultPagePosition_def)
  have pr: "\<forall>items\<in>set threePages. \<not> isl (returnedItems customers items)"
    by (simp add: threePages_def customer_pages)
  have sz: "map length threePages = [5000, 5000, 3217]"
    by (simp add: threePages_def)
  from paging_by_full_pages [OF customers_accepted pr, unfolded Let_def] st sz
  show ?thesis by blast
qed

declare requestLoop.simps [simp del]

lemma loop_descriptor:
  assumes "pagePosition qd = Some p"
  shows "\<exists>new p'. requests (requestLoop qd listData answers reqs) = reqs @ new \<and>
           pagePosition (descriptor (requestLoop qd listData answers reqs)) = Some p' \<and>
           p \<le> p' \<and>
           (length new \<le> 1 \<longrightarrow> p' = p) \<and>
           (new \<noteq> [] \<longrightarrow> r_position (hd new) = p \<and> r_position (last new) = p') \<and>
           (2 \<le> length new \<longrightarrow> p < p') \<and>
           (\<not> isl (fst (loadListData_issue qd)) \<longrightarrow> new \<noteq> [])"
  using assms
proof (induction answers arbitrary: qd listData reqs p)
  case Nil
  show ?case
  proof (cases "loadListData_issue qd")
    case (Pair res qd')
    then have pp: "pagePosition qd' = Some p"
      using issue_frame(1) [of qd] Nil.prems by simp
    show ?thesis
    proof (cases res)
      case (Inl e)
      with Pair have thr: "loadListData_issue qd = (Inl e, qd')" by simp
      from loop_thrown [OF thr, of listData "[]" reqs] pp thr show ?thesis by simp
    next
      case (Inr rq)
      with Pair have iss: "loadListData_issue qd = (Inr rq, qd')" by simp
      from issue_position [OF iss] Nil.prems have "r_position rq = p" by simp
      with loop_empty [OF iss, of listData reqs] pp show ?thesis by simp
    qed
  qed
next
  case (Cons answer later)
  show ?case
  proof (cases "loadListData_issue qd")
    case (Pair res qd')
    then have pp: "pagePosition qd' = Some p"
      using issue_frame(1) [of qd] Cons.prems by simp
    show ?thesis
    proof (cases res)
      case (Inl e)
      with Pair have thr: "loadListData_issue qd = (Inl e, qd')" by simp
      from loop_thrown [OF thr, of listData "answer # later" reqs] pp thr show ?thesis by simp
    next
      case (Inr rq)
      with Pair have iss: "loadListData_issue qd = (Inr rq, qd')" by simp
      from issue_position [OF iss] Cons.prems have pos: "r_position rq = p" by simp
      have one: "?thesis"
        if "requests (requestLoop qd listData (answer # later) reqs) = reqs @ [rq]"
          and "descriptor (requestLoop qd listData (answer # later) reqs) = qd'"
        using that pp pos by simp
      show ?thesis
      proof (cases answer)
        case (Rejected m)
        with loop_rejected [OF iss, of listData m later reqs] show ?thesis by (intro one) simp_all
      next
        case (Page items)
        show ?thesis
        proof (cases "returnedItems qd items")
          case (Inl e)
          with loop_page_error [OF iss, of items e listData later reqs] Page show ?thesis
            by (intro one) simp_all
        next
          case (Inr results)
          note step = loop_page [OF iss Inr, of listData later reqs]
          show ?thesis
          proof (cases "length items = 5000")
            case False
            with step Page show ?thesis by (intro one) simp_all
          next
            case True
            let ?d = "if length listData + 5000 = 5000 then 1 else (0::int)"
            let ?qd2 = "advance qd' (length listData + 5000)"
            from iss have qd': "qd' = snd (loadListData_issue qd)" by simp
            have adv: "?qd2 = (snd (loadListData_issue qd))\<lparr>pagePosition := Some (p + ?d + 5000)\<rparr>"
              using advance_eq [OF pp, of "length listData + 5000"] qd' by simp
            have ok2: "\<not> isl (fst (loadListData_issue ?qd2))"
              unfolding adv by (rule issue_stable) (simp add: iss)
            have pp2: "pagePosition ?qd2 = Some (p + ?d + 5000)" by (simp add: adv)
            from Cons.IH [OF pp2, of "listData @ results" "reqs @ [rq]"] ok2
            obtain new2 p2 where
              n2: "requests (requestLoop ?qd2 (listData @ results) later (reqs @ [rq])) =
                     (reqs @ [rq]) @ new2"
              and d2: "pagePosition (descriptor (requestLoop ?qd2 (listData @ results) later
                     (reqs @ [rq]))) = Some p2"
              and le2: "p + ?d + 5000 \<le> p2"
              and last2: "r_position (last new2) = p2"
              and ne2: "new2 \<noteq> []"
              by auto
            from step True Page
            have eq: "requestLoop qd listData (answer # later) reqs =
                      requestLoop ?qd2 (listData @ results) later (reqs @ [rq])" by simp
            have "requests (requestLoop qd listData (answer # later) reqs) = reqs @ (rq # new2)"
              unfolding eq using n2 by simp
            moreover have "pagePosition (descriptor (requestLoop qd listData (answer # later) reqs)) =
                     Some p2"
              unfolding eq by (rule d2)
            moreover have "p < p2" using le2 by (cases "listData = []") simp_all
            ultimately show ?thesis using ne2 last2 pos
              by (intro exI [of _ "rq # new2"] exI [of _ p2]) auto
          qed
        qed
      qed
    qed
  qed
qed

text \<open>
  C9. \<^verbatim>\<open>getListData\<close> writes to the caller's descriptor. After the call the descriptor
  always has a \<^verbatim>\<open>pagePosition\<close>. The first request is made at the caller's position,
  or at 0 when there was none; the descriptor ends with the position of the last
  request made. With at most one request that is the starting position, so a missing
  \<^verbatim>\<open>pagePosition\<close> has become 0; with two or more requests it is larger than the
  starting position and differs from what the caller passed.
\<close>

theorem descriptor_mutated:
  "pagePosition (descriptor (getListData qd answers)) \<noteq> None \<and>
   (requests (getListData qd answers) \<noteq> [] \<longrightarrow>
      r_position (hd (requests (getListData qd answers))) =
        (case pagePosition qd of None \<Rightarrow> 0 | Some p \<Rightarrow> p) \<and>
      pagePosition (descriptor (getListData qd answers)) =
        Some (r_position (last (requests (getListData qd answers))))) \<and>
   (length (requests (getListData qd answers)) \<le> 1 \<longrightarrow>
      pagePosition (descriptor (getListData qd answers)) =
        Some (case pagePosition qd of None \<Rightarrow> 0 | Some p \<Rightarrow> p)) \<and>
   (2 \<le> length (requests (getListData qd answers)) \<longrightarrow>
      pagePosition (descriptor (getListData qd answers)) \<noteq> pagePosition qd \<and>
      (case pagePosition qd of None \<Rightarrow> 0 | Some p \<Rightarrow> p) <
        the (pagePosition (descriptor (getListData qd answers))))"
proof -
  let ?p = "case pagePosition qd of None \<Rightarrow> 0 | Some p \<Rightarrow> p"
  have pp: "pagePosition (defaultPagePosition qd) = Some ?p"
    by (cases "pagePosition qd") (simp_all add: defaultPagePosition_def)
  from loop_descriptor [OF pp, of "[]" answers "[]", folded getListData_def]
  obtain new p' where
    "requests (getListData qd answers) = new"
    "pagePosition (descriptor (getListData qd answers)) = Some p'"
    "length new \<le> 1 \<longrightarrow> p' = ?p"
    "new \<noteq> [] \<longrightarrow> r_position (hd new) = ?p \<and> r_position (last new) = p'"
    "2 \<le> length new \<longrightarrow> ?p < p'"
    by auto
  then show ?thesis
    by (cases "pagePosition qd") auto
qed

lemma threePages_positions:
  "map r_position (requests (getListData customers (map Page threePages))) = [0, 5001, 10001]"
proof -
  have pp: "pagePosition (defaultPagePosition customers) = Some 0"
    by (simp add: customers_def defaultPagePosition_def)
  have pr: "\<forall>items\<in>set threePages.
              \<not> isl (returnedItems (defaultPagePosition customers) items)"
    by (simp add: threePages_def returnedItems_default customer_pages)
  have k: "length (takeWhile (\<lambda>items. length items = 5000) threePages) = 2"
    by (simp add: threePages_def)
  have upt3: "map f [0..<Suc 2] = [f 0, f 1, f 2]" for f :: "nat \<Rightarrow> int"
    by (simp add: numeral_2_eq_2 upt_rec)
  from loop_pages [OF customers_accepted pr pp, of "[] :: jsval row list" "[]",
      folded getListData_def]
  have "map r_position (requests (getListData customers (map Page threePages))) =
          map r_position ([] :: request list) @
          map (\<lambda>i. 0 + 5000 * int i + (if 0 < i \<and> ([] :: jsval row list) = [] then 1 else 0))
            [0..<Suc (length (takeWhile (\<lambda>items. length items = 5000) threePages))]"
    by blast
  then show ?thesis unfolding k upt3 by simp
qed

lemma no_answer_yet:
  "requests (getListData customers ([] :: jsval response list)) \<noteq> [] \<and>
   length (requests (getListData customers ([] :: jsval response list))) \<le> 1"
proof -
  from customers_accepted obtain rq qd' where
    "loadListData_issue (defaultPagePosition customers) = (Inr rq, qd')"
    using issue_ok_pair by blast
  from loop_empty [OF this, of "[] :: jsval row list" "[]"]
  show ?thesis by (simp add: getListData_def)
qed

text \<open>
  The example descriptor has no \<^verbatim>\<open>pagePosition\<close>: with no answer yet it holds 0, and
  after the three pages of sizes 5000, 5000, 3217 it holds 10001.
\<close>

theorem descriptor_mutated_witness:
  "pagePosition customers = None \<and>
   pagePosition (descriptor (getListData customers ([] :: jsval response list))) = Some 0 \<and>
   pagePosition (descriptor (getListData customers (map Page threePages))) = Some 10001"
proof -
  have none: "pagePosition customers = None" by (simp add: customers_def)
  have three: "requests (getListData customers (map Page threePages)) \<noteq> []"
    "2 \<le> length (requests (getListData customers (map Page threePages)))"
    "r_position (last (requests (getListData customers (map Page threePages)))) = 10001"
    using threePages_positions arg_cong [OF threePages_positions, of length]
      arg_cong [OF threePages_positions, of last]
    by (auto simp add: last_map)
  have "pagePosition (descriptor (getListData customers ([] :: jsval response list))) = Some 0"
    using descriptor_mutated [of customers "[] :: jsval response list"] none no_answer_yet
    by auto
  moreover
  have "pagePosition (descriptor (getListData customers (map Page threePages))) = Some 10001"
    using descriptor_mutated [of customers "map Page threePages"] three
    by auto
  ultimately show ?thesis using none by simp
qed

lemma itemRow_isl:
  "isl (itemRow qd item cs row) = (\<exists>c\<in>set cs. isl (item c))"
  by (induction cs arbitrary: row) (auto split: sum.splits)

lemma returnedItems_isl:
  "isl (returnedItems qd items) =
     (\<exists>item\<in>set items. \<exists>c\<in>set (the (listColumns qd)). isl (item c))"
proof (induction items)
  case Nil
  show ?case by simp
next
  case (Cons a items)
  have "isl (itemRow qd a (the (listColumns qd)) []) =
          (\<exists>c\<in>set (the (listColumns qd)). isl (a c))"
    by (rule itemRow_isl)
  with Cons show ?case
    by (cases "itemRow qd a (the (listColumns qd)) []"; cases "returnedItems qd items") auto
qed

lemma loop_full_prefix:
  assumes "\<not> isl (fst (loadListData_issue qd))"
    and "\<forall>items\<in>set pages. length items = 5000 \<and> \<not> isl (returnedItems qd items)"
  shows "\<exists>qd2 new.
           requestLoop qd listData (map Page pages @ rest) reqs =
             requestLoop qd2 (listData @ concat (map (rowsOf qd) pages)) rest (reqs @ new) \<and>
           length new = length pages \<and>
           \<not> isl (fst (loadListData_issue qd2)) \<and>
           listColumns qd2 = listColumns qd \<and> listName qd2 = listName qd \<and>
           listGuid qd2 = listGuid qd"
  using assms
proof (induction pages arbitrary: qd listData reqs)
  case Nil
  then show ?case by (intro exI [of _ qd] exI [of _ "[]"]) simp
next
  case (Cons items pages)
  from Cons.prems(1) obtain rq qd' where iss: "loadListData_issue qd = (Inr rq, qd')"
    using issue_ok_pair by blast
  from Cons.prems(2) obtain results where res: "returnedItems qd items = Inr results"
    by (cases "returnedItems qd items") auto
  then have rows: "rowsOf qd items = results" by (simp add: rowsOf_def)
  from Cons.prems(2) have full: "length items = 5000" by simp
  from issue_ok_valid [OF Cons.prems(1)] obtain p where pq: "pagePosition qd = Some p"
    by auto
  from iss have qd': "qd' = snd (loadListData_issue qd)" by simp
  then have pp: "pagePosition qd' = Some p" using pq by (simp add: issue_frame)
  let ?qd2 = "advance qd' (length listData + 5000)"
  let ?p2 = "p + (if length listData + 5000 = 5000 then 1 else 0) + 5000"
  have adv: "?qd2 = (snd (loadListData_issue qd))\<lparr>pagePosition := Some ?p2\<rparr>"
    using advance_eq [OF pp, of "length listData + 5000"] qd' by simp
  have ok2: "\<not> isl (fst (loadListData_issue ?qd2))"
    unfolding adv using Cons.prems(1) by (rule issue_stable)
  have fr: "listColumns ?qd2 = listColumns qd" "listName ?qd2 = listName qd"
    "listGuid ?qd2 = listGuid qd"
    by (simp_all add: adv issue_frame)
  have rf: "returnedItems ?qd2 its = returnedItems qd its" for its :: "'a listItem list"
    by (rule returnedItems_frame [OF fr])
  have rows2: "rowsOf ?qd2 = rowsOf qd"
    by (rule ext) (rule rowsOf_frame [OF fr])
  have all2: "\<forall>its\<in>set pages. length its = 5000 \<and> \<not> isl (returnedItems ?qd2 its)"
    using Cons.prems(2) by (simp add: rf)
  from Cons.IH [OF ok2 all2, of "listData @ results" "reqs @ [rq]"]
  obtain qd3 new where
    step2: "requestLoop ?qd2 (listData @ results) (map Page pages @ rest) (reqs @ [rq]) =
              requestLoop qd3 ((listData @ results) @ concat (map (rowsOf ?qd2) pages)) rest
                ((reqs @ [rq]) @ new)"
    and len: "length new = length pages"
    and ok3: "\<not> isl (fst (loadListData_issue qd3))"
    and fr3: "listColumns qd3 = listColumns ?qd2" "listName qd3 = listName ?qd2"
      "listGuid qd3 = listGuid ?qd2"
    by blast
  have step1: "requestLoop qd listData (map Page (items # pages) @ rest) reqs =
               requestLoop ?qd2 (listData @ results) (map Page pages @ rest) (reqs @ [rq])"
    using loop_page [OF iss res, of listData "map Page pages @ rest" reqs] full by simp
  show ?case
    using step1 step2 len ok3 fr3 fr rows
    by (intro exI [of _ qd3] exI [of _ "rq # new"]) (simp add: rows2)
qed

lemma returnedItems_lacking:
  assumes "item \<in> set items" and "c \<in> set (the (listColumns qd))" and "isl (item c)"
  shows "\<exists>item' c' e. item' \<in> set items \<and> c' \<in> set (the (listColumns qd)) \<and>
           item' c' = Inl e \<and> returnedItems qd items = Inl (columnMissing qd c' e)"
proof -
  have row: "itemRow qd it cs row = Inl m \<Longrightarrow>
               \<exists>c' e. c' \<in> set cs \<and> it c' = Inl e \<and> m = columnMissing qd c' e"
    for it :: "'a listItem" and cs row m
  proof (induction cs arbitrary: row)
    case Nil
    then show ?case by simp
  next
    case (Cons a cs)
    show ?case
    proof (cases "it a")
      case (Inl e)
      with Cons.prems have "m = columnMissing qd a e" by simp
      with Inl show ?thesis by (intro exI [of _ a] exI [of _ e]) simp
    next
      case (Inr v)
      with Cons.prems have "itemRow qd it cs (assign a v row) = Inl m" by simp
      from Cons.IH [OF this] obtain c' e where
        "c' \<in> set cs" "it c' = Inl e" "m = columnMissing qd c' e" by blast
      then show ?thesis by (intro exI [of _ c'] exI [of _ e]) simp
    qed
  qed
  have pages: "returnedItems qd its = Inl m \<Longrightarrow>
                 \<exists>item' c' e. item' \<in> set its \<and> c' \<in> set (the (listColumns qd)) \<and>
                   item' c' = Inl e \<and> m = columnMissing qd c' e"
    for its :: "'a listItem list" and m
  proof (induction its)
    case Nil
    then show ?case by simp
  next
    case (Cons a its)
    show ?case
    proof (cases "itemRow qd a (the (listColumns qd)) []")
      case (Inl m')
      with Cons.prems have "m' = m" by simp
      with row [OF Inl] obtain c' e where
        "c' \<in> set (the (listColumns qd))" "a c' = Inl e" "m = columnMissing qd c' e" by blast
      then show ?thesis by (intro exI [of _ a] exI [of _ c'] exI [of _ e]) simp
    next
      case (Inr r)
      with Cons.prems have "returnedItems qd its = Inl m"
        by (cases "returnedItems qd its") simp_all
      from Cons.IH [OF this] obtain item' c' e where
        "item' \<in> set its" "c' \<in> set (the (listColumns qd))" "item' c' = Inl e"
        "m = columnMissing qd c' e" by blast
      then show ?thesis by (intro exI [of _ item'] exI [of _ c'] exI [of _ e]) simp
    qed
  qed
  from assms have "isl (returnedItems qd items)"
    unfolding returnedItems_isl by blast
  then obtain m where m: "returnedItems qd items = Inl m"
    by (cases "returnedItems qd items") simp_all
  from pages [OF m] m show ?thesis by auto
qed

text \<open>
  C4, amended. Let the descriptor be accepted, let the store first answer with full pages
  whose items hold every requested column, and then with a page in which some item does
  not hold some requested column. The resolve callback of \<^verbatim>\<open>loadListData\<close> throws the
  message that names the list and a requested column which an item of that page lacks,
  followed by the error \<^verbatim>\<open>get_item\<close> raised for it. The exception leaves the
  callback: neither the caller's failure callback nor the success callback runs, the
  rows collected so far are not delivered, and no request follows the one that
  fetched this page (nothing is retried).
\<close>

theorem missing_column_is_thrown:
  assumes "\<not> isl (fst (loadListData_issue (defaultPagePosition qd)))"
    and "\<forall>page\<in>set pages. length page = 5000 \<and> \<not> isl (returnedItems qd page)"
    and "item \<in> set items" and "c \<in> set (the (listColumns qd))" and "isl (item c)"
  shows "(\<exists>item' c' e. item' \<in> set items \<and> c' \<in> set (the (listColumns qd)) \<and>
            item' c' = Inl e \<and>
            outcome (getListData qd (map Page pages @ Page items # later)) =
              Thrown (columnMissing qd c' e)) \<and>
         length (requests (getListData qd (map Page pages @ Page items # later))) =
           Suc (length pages) \<and>
         \<not> is_Failure (outcome (getListData qd (map Page pages @ Page items # later))) \<and>
         \<not> is_Success (outcome (getListData qd (map Page pages @ Page items # later)))"
proof -
  let ?qd = "defaultPagePosition qd"
  have all: "\<forall>page\<in>set pages. length page = 5000 \<and> \<not> isl (returnedItems ?qd page)"
    using assms(2) by (simp add: returnedItems_default)
  from loop_full_prefix [OF assms(1) all, of "[]" "Page items # later" "[]"]
  obtain qd2 new where
    run: "getListData qd (map Page pages @ Page items # later) =
            requestLoop qd2 (concat (map (rowsOf ?qd) pages)) (Page items # later) new"
    and len: "length new = length pages"
    and ok2: "\<not> isl (fst (loadListData_issue qd2))"
    and fr: "listColumns qd2 = listColumns ?qd" "listName qd2 = listName ?qd"
      "listGuid qd2 = listGuid ?qd"
    by (auto simp add: getListData_def)
  from ok2 obtain rq qd' where iss: "loadListData_issue qd2 = (Inr rq, qd')"
    using issue_ok_pair by blast
  from returnedItems_lacking [OF assms(3-5)] obtain item' c' e where
    lack: "item' \<in> set items" "c' \<in> set (the (listColumns qd))" "item' c' = Inl e"
    and err: "returnedItems qd items = Inl (columnMissing qd c' e)"
    by blast
  have "returnedItems qd2 items = returnedItems ?qd items"
    by (rule returnedItems_frame [OF fr])
  with err have "returnedItems qd2 items = Inl (columnMissing qd c' e)"
    by (simp add: returnedItems_default)
  from loop_page_error [OF iss this, of "concat (map (rowsOf ?qd) pages)" later new] run
  have res: "getListData qd (map Page pages @ Page items # later) =
          \<lparr>outcome = Thrown (columnMissing qd c' e), requests = new @ [rq], descriptor = qd'\<rparr>"
    by simp
  have "\<exists>item' c' e. item' \<in> set items \<and> c' \<in> set (the (listColumns qd)) \<and>
          item' c' = Inl e \<and>
          outcome (getListData qd (map Page pages @ Page items # later)) =
            Thrown (columnMissing qd c' e)"
    using lack res by (intro exI [of _ item'] exI [of _ c'] exI [of _ e]) simp
  then show ?thesis
    using len by (simp add: res)
qed

lemma customersFax_accepted:
  "\<not> isl (fst (loadListData_issue (defaultPagePosition customersFax)))"
  by (simp add: issue_isl customersFax_def customers_def defaultPagePosition_def customQuery_def)

theorem missing_column_is_thrown_witness:
  "(\<exists>item' c' e. item' \<in> set [customer] \<and> c' \<in> set [''Name'', ''Fax''] \<and>
      item' c' = Inl e \<and>
      outcome (getListData customersFax [Page [customer]]) =
        Thrown (columnMissing customersFax c' e)) \<and>
   length (requests (getListData customersFax [Page [customer]])) = 1 \<and>
   \<not> is_Failure (outcome (getListData customersFax [Page [customer]])) \<and>
   (\<exists>item' c' e. item' \<in> set [nameOnly] \<and> c' \<in> set [''Name'', ''Phone''] \<and>
      item' c' = Inl e \<and>
      outcome (getListData customers [Page (replicate 5000 customer), Page [nameOnly]]) =
        Thrown (columnMissing customers c' e)) \<and>
   length (requests (getListData customers [Page (replicate 5000 customer), Page [nameOnly]])) = 2 \<and>
   \<not> is_Failure
      (outcome (getListData customers [Page (replicate 5000 customer), Page [nameOnly]]))"
  using missing_column_is_thrown [OF customersFax_accepted, of "[]" customer "[customer]"
      "''Fax''" "[]"]
    missing_column_is_thrown [OF customers_accepted, of "[replicate 5000 customer]" nameOnly
      "[nameOnly]" "''Phone''" "[]"]
  by (simp add: customersFax_def customers_def customer_def nameOnly_def customer_pages
      [unfolded customers_def])

text \<open>
  C4, as stated, fails: the error is claimed to reach the caller's failure callback.
  Requesting the column Fax, which the returned customer item does not hold, ends with
  the thrown message and without a call of the failure callback.
\<close>

theorem missing_column_not_reported:
  "outcome (getListData customersFax [Page [customer]]) =
     Thrown (columnMissing customersFax ''Fax''
       ''The property or field has not been initialized.'') \<and>
   \<not> is_Failure (outcome (getListData customersFax [Page [customer]]))"
proof -
  from customersFax_accepted obtain rq qd' where
    iss: "loadListData_issue (defaultPagePosition customersFax) = (Inr rq, qd')"
    using issue_ok_pair by blast
  have "returnedItems customersFax [customer] =
          Inl (columnMissing customersFax ''Fax''
            ''The property or field has not been initialized.'')"
    by (simp add: customersFax_def customers_def customer_def)
  then have "returnedItems (defaultPagePosition customersFax) [customer] =
          Inl (columnMissing customersFax ''Fax''
            ''The property or field has not been initialized.'')"
    by (simp only: returnedItems_default)
  from loop_page_error [OF iss this, of "[]" "[]" "[]", folded getListData_def]
  show ?thesis by simp
qed

end
